theory Spec2Isabelle
  imports Complex_Main
begin

section \<open>Epidemic model: shallow embedding of objects.py, controls.py and main.py\<close>

text \<open>
  The embedding follows the Python source function by function. Sprites are referred to
  by handles: a person is its position in the list \<open>persons.sprites()\<close>, a community
  and a region are natural-number handles into the tables of the world, so that the
  identity tests of the source (\<open>other is not self\<close>, the default \<open>==\<close> of sprites) are
  equalities of handles. Python floats are idealised as reals, except in the target of
  the rebalancing, an integer read off a float product, where the float operations round
  (see \<open>binary64\<close>). The pseudo random number generator and \<open>perf_counter\<close> are oracles: two infinite sequences of readings and the
  number of readings consumed so far, carried in the world. All drawing is left out: it
  reads the state and writes only to surfaces.
\<close>

subsection \<open>Python and pygame primitives\<close>

datatype error = RuntimeError string | IndexError | ValueError | ZeroDivisionError | TypeError

definition bind_result :: "error + 'a \<Rightarrow> ('a \<Rightarrow> error + 'b) \<Rightarrow> error + 'b" where
  "bind_result m f = (case m of Inl e \<Rightarrow> Inl e | Inr x \<Rightarrow> f x)"

text \<open>\<open>int(x)\<close> on a float: truncation towards zero.\<close>

definition py_int :: "real \<Rightarrow> int" where
  "py_int r = (if 0 \<le> r then \<lfloor>r\<rfloor> else \<lceil>r\<rceil>)"

text \<open>\<open>round(x)\<close> on a float: to the nearest integer, ties to the even one.\<close>

definition py_round :: "real \<Rightarrow> int" where
  "py_round r =
     (let f = \<lfloor>r\<rfloor>; d = r - of_int f
      in if d < 1 / 2 then f else if 1 / 2 < d then f + 1 else if even f then f else f + 1)"

text \<open>
  The value of an arithmetic operation on floats is its exact value rounded to a float:
  IEEE 754 binary64, to the nearest float, ties to the even mantissa (for results in the
  normal range: no overflow, no subnormal numbers). The rounding is applied in the target
  of the rebalancing; elsewhere floats are taken as reals.
\<close>

definition binary64 :: "real \<Rightarrow> real" where
  "binary64 x =
     (if x = 0 then 0
      else (let e = \<lfloor>log 2 \<bar>x\<bar>\<rfloor>; ulp = 2 powr (of_int e - 52)
            in ulp * of_int (py_round (x / ulp))))"

text \<open>controls.py, \<open>clamp\<close>.\<close>

definition clamp :: "int \<Rightarrow> int \<Rightarrow> int \<Rightarrow> int" where
  "clamp val minimum maximum = max minimum (min maximum val)"

text \<open>
  \<open>pygame.Rect\<close>: integer left, top, width, height. \<open>center\<close> reads
  \<open>(x + (w >> 1), y + (h >> 1))\<close> and assigning it moves the rectangle; \<open>move_ip\<close> with
  float arguments truncates them.
\<close>

record Rect =
  rx :: int
  ry :: int
  rw :: int
  rh :: int

definition Rect_center :: "Rect \<Rightarrow> int \<times> int" where
  "Rect_center r = (rx r + rw r div 2, ry r + rh r div 2)"

definition Rect_set_center :: "int \<times> int \<Rightarrow> Rect \<Rightarrow> Rect" where
  "Rect_set_center c r = r\<lparr>rx := fst c - rw r div 2, ry := snd c - rh r div 2\<rparr>"

definition move_ip :: "real \<Rightarrow> real \<Rightarrow> Rect \<Rightarrow> Rect" where
  "move_ip dx dy r = r\<lparr>rx := rx r + py_int dx, ry := ry r + py_int dy\<rparr>"

definition collidepoint :: "Rect \<Rightarrow> int \<times> int \<Rightarrow> bool" where
  "collidepoint r pt =
     (rx r \<le> fst pt \<and> fst pt < rx r + rw r \<and> ry r \<le> snd pt \<and> snd pt < ry r + rh r)"

definition colliderect :: "Rect \<Rightarrow> Rect \<Rightarrow> bool" where
  "colliderect a b =
     (if rw a = 0 \<or> rh a = 0 \<or> rw b = 0 \<or> rh b = 0 then False
      else min (rx a) (rx a + rw a) < max (rx b) (rx b + rw b)
         \<and> min (ry a) (ry a + rh a) < max (ry b) (ry b + rh b)
         \<and> min (rx b) (rx b + rw b) < max (rx a) (rx a + rw a)
         \<and> min (ry b) (ry b + rh b) < max (ry a) (ry a + rh a))"

text \<open>
  \<open>pygame.Vector2\<close>. A vector is falsy exactly when both coordinates are zero;
  \<open>normalize\<close> raises ValueError on a vector of length zero; dividing by the scalar 0
  raises ZeroDivisionError; \<open>rotate_ip\<close> takes degrees.
\<close>

type_synonym Vector2 = "real \<times> real"

definition Vector2_of :: "int \<times> int \<Rightarrow> Vector2" where
  "Vector2_of c = (of_int (fst c), of_int (snd c))"

definition vec_add :: "Vector2 \<Rightarrow> Vector2 \<Rightarrow> Vector2" where
  "vec_add a b = (fst a + fst b, snd a + snd b)"

definition vec_sub :: "Vector2 \<Rightarrow> Vector2 \<Rightarrow> Vector2" where
  "vec_sub a b = (fst a - fst b, snd a - snd b)"

definition vec_neg :: "Vector2 \<Rightarrow> Vector2" where
  "vec_neg a = (- fst a, - snd a)"

definition vec_scale :: "Vector2 \<Rightarrow> real \<Rightarrow> Vector2" where
  "vec_scale a k = (fst a * k, snd a * k)"

definition vec_div :: "Vector2 \<Rightarrow> real \<Rightarrow> error + Vector2" where
  "vec_div a k = (if k = 0 then Inl ZeroDivisionError else Inr (fst a / k, snd a / k))"

definition vec_length :: "Vector2 \<Rightarrow> real" where
  "vec_length a = sqrt (fst a * fst a + snd a * snd a)"

definition vec_bool :: "Vector2 \<Rightarrow> bool" where
  "vec_bool a = (fst a \<noteq> 0 \<or> snd a \<noteq> 0)"

definition vec_normalize :: "Vector2 \<Rightarrow> error + Vector2" where
  "vec_normalize a =
     (if vec_length a = 0 then Inl ValueError
      else Inr (fst a / vec_length a, snd a / vec_length a))"

definition vec_rotate :: "int \<Rightarrow> Vector2 \<Rightarrow> Vector2" where
  "vec_rotate angle a =
     (let t = of_int angle * pi / 180
      in (fst a * cos t - snd a * sin t, fst a * sin t + snd a * cos t))"

text \<open>\<open>reduce(lambda a, b: a + b, forces)\<close>: TypeError on the empty list.\<close>

definition reduce_add :: "Vector2 list \<Rightarrow> error + Vector2" where
  "reduce_add fs = (case fs of [] \<Rightarrow> Inl TypeError | f # rest \<Rightarrow> Inr (foldl vec_add f rest))"

text \<open>\<open>xs[n:]\<close> with Python's reading of a negative start.\<close>

definition py_slice_from :: "int \<Rightarrow> 'a list \<Rightarrow> 'a list" where
  "py_slice_from n xs =
     (if 0 \<le> n then drop (nat n) xs else drop (nat (int (length xs) + n)) xs)"

subsection \<open>Constants of objects.py\<close>

definition MAX_INFECTION_DURATION :: real where "MAX_INFECTION_DURATION = 60"
definition INFECTION_EVENT_INTERVAL :: real where "INFECTION_EVENT_INTERVAL = 3"
definition SPREAD_CHANCE :: real where "SPREAD_CHANCE = 33 / 100"
definition INFECTION_CHANCE :: real where "INFECTION_CHANCE = 1 / 2"
definition REINFECTION_CHANCE :: real where "REINFECTION_CHANCE = 1 / 10"
definition INFECTED_DISTANCER_CHANCE :: real where "INFECTED_DISTANCER_CHANCE = 7 / 10"
definition RECOVERED_NONDISTANCER_CHANCE :: real where "RECOVERED_NONDISTANCER_CHANCE = 6 / 10"
definition MORTALITY_CHANCE :: real where "MORTALITY_CHANCE = 1 / 10"
definition EARLY_TERMINATION_CHANCE :: real where "EARLY_TERMINATION_CHANCE = 2 / 100"
definition TRAVEL_SPEED_MULTIPLIER :: real where "TRAVEL_SPEED_MULTIPLIER = 3"
definition PROXIMITY_COEFFICIENT :: real where "PROXIMITY_COEFFICIENT = 10"

definition radius :: int where "radius = 5"
definition surf_size :: int where "surf_size = radius * 25"
definition distancing_radius :: real where "distancing_radius = of_int (radius * 25)"
definition infection_radius :: real where "infection_radius = of_int (radius * 10)"
definition speed :: real where "speed = 120"

subsection \<open>Regions, communities, persons, the world\<close>

text \<open>
  A Region keeps the center of its rectangle (\<open>get_rect(center=center, size=size)\<close> on a
  surface of that size reads back the center it was given), its size and its border.
\<close>

record Region =
  center :: "int \<times> int"
  rsize :: "int \<times> int"
  border_thickness :: int
  active :: bool

record Community = Region +
  absolute_center_rect :: Rect

definition Region_left :: "'a Region_scheme \<Rightarrow> int" where
  "Region_left r = py_int (of_int (fst (center r)) - of_int (fst (rsize r)) / 2) + border_thickness r"

definition Region_top :: "'a Region_scheme \<Rightarrow> int" where
  "Region_top r = py_int (of_int (snd (center r)) - of_int (snd (rsize r)) / 2) + border_thickness r"

definition Region_right :: "'a Region_scheme \<Rightarrow> int" where
  "Region_right r = Region_left r + fst (rsize r) - border_thickness r"

definition Region_bottom :: "'a Region_scheme \<Rightarrow> int" where
  "Region_bottom r = Region_top r + snd (rsize r) - border_thickness r"

text \<open>
  \<open>Community.__init__\<close>: \<open>center_rect\<close> is \<open>get_rect(center=(w - 15, h - 15), size=(30, 30))\<close>
  on the community's surface; the keywords are applied in order, so the rectangle of the
  surface is first centred there and then shrunk to 30 x 30 with its corner kept.
\<close>

definition center_size :: int where "center_size = 30"

definition Community_init :: "int \<times> int \<Rightarrow> int \<times> int \<Rightarrow> int \<Rightarrow> Community" where
  "Community_init sz c bt =
     (let base = \<lparr>center = c, rsize = sz, border_thickness = bt, active = True\<rparr>;
          center_rect_left = py_int (of_int (fst sz) - of_int center_size / 2) - fst sz div 2;
          center_rect_top = py_int (of_int (snd sz) - of_int center_size / 2) - snd sz div 2
      in \<lparr>center = c, rsize = sz, border_thickness = bt, active = True,
          absolute_center_rect =
            \<lparr>rx = Region_left base + center_rect_left - bt,
             ry = Region_top base + center_rect_top - bt,
             rw = center_size, rh = center_size\<rparr>\<rparr>)"

datatype State = SUSCEPTIBLE | INFECTED | RECOVERED | DECEASED

text \<open>
  A Person. \<open>self.rect\<close> is made by \<open>get_rect\<close> on the person's 125 x 125 surface and is
  afterwards only moved (\<open>move_ip\<close>, assignment to \<open>center\<close>), so the record keeps its
  top-left corner and \<open>Person_rect\<close> gives the rectangle. \<open>bounds\<close> is the pair of handles
  of the Bounds dataclass.
\<close>

record Person =
  bounds_community :: nat
  bounds_region :: nat
  distancing :: bool
  rect_topleft :: "int \<times> int"
  state :: State
  direction :: Vector2
  infected_start :: "real option"
  infected_end :: "real option"
  travel_target :: "nat option"
  last_event :: real

definition Person_rect :: "Person \<Rightarrow> Rect" where
  "Person_rect p = \<lparr>rx = fst (rect_topleft p), ry = snd (rect_topleft p), rw = surf_size, rh = surf_size\<rparr>"

definition set_rect :: "Rect \<Rightarrow> Person \<Rightarrow> Person" where
  "set_rect r p = p\<lparr>rect_topleft := (rx r, ry r)\<rparr>"

definition rect_center :: "Person \<Rightarrow> int \<times> int" where
  "rect_center p = Rect_center (Person_rect p)"

text \<open>controls.py, \<open>NumericVariable\<close>: the value and the value before the last change.\<close>

record NumericVariable =
  nv_value :: real
  nv_old :: real

definition resolve_diff :: "NumericVariable \<Rightarrow> NumericVariable" where
  "resolve_diff v = v\<lparr>nv_old := nv_value v\<rparr>"

record world =
  persons :: "Person list"
  communities :: "nat \<Rightarrow> Community"
  regions :: "nat \<Rightarrow> Region"
  distancing_percent :: NumericVariable
  distancing_strength :: real
  random_stream :: "nat \<Rightarrow> real"
  random_calls :: nat
  clock_stream :: "nat \<Rightarrow> real"
  clock_calls :: nat

subsection \<open>The oracles: \<open>random\<close> and \<open>perf_counter\<close>\<close>

text \<open>
  \<open>random.random()\<close> reads the next variate of the stream, which a generator keeps in
  \<open>[0, 1)\<close> (\<open>valid_rng\<close>). \<open>randint\<close>, \<open>choice\<close> and \<open>sample\<close> are read off one variate
  per draw: \<open>choice\<close> raises IndexError on an empty sequence, \<open>sample\<close> raises ValueError
  when asked for more elements than there are (or for a negative number) and otherwise
  draws positions one by one without replacement.
\<close>

definition valid_rng :: "(nat \<Rightarrow> real) \<Rightarrow> bool" where
  "valid_rng r = (\<forall>k. 0 \<le> r k \<and> r k < 1)"

definition random_random :: "world \<Rightarrow> real \<times> world" where
  "random_random w = (random_stream w (random_calls w), w\<lparr>random_calls := Suc (random_calls w)\<rparr>)"

definition random_randint :: "int \<Rightarrow> int \<Rightarrow> world \<Rightarrow> int \<times> world" where
  "random_randint a b w =
     (let (u, w1) = random_random w in (a + \<lfloor>u * of_int (b - a + 1)\<rfloor>, w1))"

definition random_index :: "nat \<Rightarrow> world \<Rightarrow> nat \<times> world" where
  "random_index n w = (let (u, w1) = random_random w in (nat \<lfloor>u * of_nat n\<rfloor>, w1))"

definition random_choice :: "'a list \<Rightarrow> world \<Rightarrow> error + ('a \<times> world)" where
  "random_choice xs w =
     (if xs = [] then Inl IndexError
      else (let (k, w1) = random_index (length xs) w in Inr (xs ! k, w1)))"

fun sample_loop :: "nat \<Rightarrow> 'a list \<Rightarrow> world \<Rightarrow> 'a list \<times> world" where
  "sample_loop 0 pool w = ([], w)"
| "sample_loop (Suc k) pool w =
     (let (idx, w1) = random_index (length pool) w;
          (rest, w2) = sample_loop k (take idx pool @ drop (Suc idx) pool) w1
      in (pool ! idx # rest, w2))"

definition random_sample :: "'a list \<Rightarrow> int \<Rightarrow> world \<Rightarrow> error + ('a list \<times> world)" where
  "random_sample population k w =
     (if k < 0 \<or> int (length population) < k then Inl ValueError
      else Inr (sample_loop (nat k) population w))"

definition perf_counter :: "world \<Rightarrow> real \<times> world" where
  "perf_counter w = (clock_stream w (clock_calls w), w\<lparr>clock_calls := Suc (clock_calls w)\<rparr>)"

subsection \<open>Person: bounds and simple setters\<close>

definition upd_person :: "nat \<Rightarrow> (Person \<Rightarrow> Person) \<Rightarrow> world \<Rightarrow> world" where
  "upd_person i f w = w\<lparr>persons := (persons w)[i := f (persons w ! i)]\<rparr>"

text \<open>
  \<open>active_bounds\<close> returns a reference: the person's community when that is active, else
  the person's region. The edges are read through the reference.
\<close>

datatype bounds_ref = CommunityRef nat | RegionRef nat

definition active_bounds :: "world \<Rightarrow> Person \<Rightarrow> bounds_ref" where
  "active_bounds w p =
     (if active (communities w (bounds_community p)) then CommunityRef (bounds_community p)
      else RegionRef (bounds_region p))"

definition bounds_left :: "world \<Rightarrow> bounds_ref \<Rightarrow> int" where
  "bounds_left w b = (case b of CommunityRef c \<Rightarrow> Region_left (communities w c) | RegionRef r \<Rightarrow> Region_left (regions w r))"

definition bounds_right :: "world \<Rightarrow> bounds_ref \<Rightarrow> int" where
  "bounds_right w b = (case b of CommunityRef c \<Rightarrow> Region_right (communities w c) | RegionRef r \<Rightarrow> Region_right (regions w r))"

definition bounds_top :: "world \<Rightarrow> bounds_ref \<Rightarrow> int" where
  "bounds_top w b = (case b of CommunityRef c \<Rightarrow> Region_top (communities w c) | RegionRef r \<Rightarrow> Region_top (regions w r))"

definition bounds_bottom :: "world \<Rightarrow> bounds_ref \<Rightarrow> int" where
  "bounds_bottom w b = (case b of CommunityRef c \<Rightarrow> Region_bottom (communities w c) | RegionRef r \<Rightarrow> Region_bottom (regions w r))"

text \<open>Truth value of an optional float: None and 0.0 are falsy.\<close>

definition truthy :: "real option \<Rightarrow> bool" where
  "truthy t = (case t of None \<Rightarrow> False | Some x \<Rightarrow> x \<noteq> 0)"

definition start_traveling :: "nat \<Rightarrow> Person \<Rightarrow> Person" where
  "start_traveling target p = p\<lparr>travel_target := Some target\<rparr>"

definition rotate_ip :: "int \<Rightarrow> Person \<Rightarrow> Person" where
  "rotate_ip angle p = p\<lparr>direction := vec_rotate angle (direction p)\<rparr>"

subsection \<open>Person: infection\<close>

definition get_infected :: "world \<Rightarrow> nat \<Rightarrow> world" where
  "get_infected w j =
     (let (t1, w1) = perf_counter w;
          (t2, w2) = perf_counter w1;
          (u1, w3) = random_random w2;
          (u2, w4) = random_random w3
      in upd_person j (\<lambda>p. p\<lparr>infected_start := Some t1, infected_end := None,
                             last_event := max 0 (t2 - u1 * 5), state := INFECTED,
                             distancing := (u2 \<le> INFECTED_DISTANCER_CHANCE)\<rparr>) w4)"

definition recover :: "world \<Rightarrow> nat \<Rightarrow> world" where
  "recover w i =
     (let (u, w1) = random_random w
      in upd_person i (\<lambda>p. p\<lparr>state := RECOVERED,
                             distancing := (u \<le> RECOVERED_NONDISTANCER_CHANCE)\<rparr>) w1)"

definition die :: "world \<Rightarrow> nat \<Rightarrow> world" where
  "die w i = upd_person i (\<lambda>p. p\<lparr>state := DECEASED\<rparr>) w"

definition end_infection :: "world \<Rightarrow> nat \<Rightarrow> world" where
  "end_infection w i =
     (let (t, w1) = perf_counter w;
          w2 = upd_person i (\<lambda>p. p\<lparr>infected_end := Some t\<rparr>) w1;
          (u, w3) = random_random w2
      in if u \<le> MORTALITY_CHANCE then die w3 i else recover w3 i)"

text \<open>The table of \<open>spread\<close>: \<open>{SUSCEPTIBLE: ..., RECOVERED: ...}.get(other.state, 0)\<close>.\<close>

definition transmission_chance :: "State \<Rightarrow> real" where
  "transmission_chance s =
     (case s of SUSCEPTIBLE \<Rightarrow> INFECTION_CHANCE | RECOVERED \<Rightarrow> REINFECTION_CHANCE | _ \<Rightarrow> 0)"

definition separation :: "world \<Rightarrow> nat \<Rightarrow> nat \<Rightarrow> Vector2" where
  "separation w i j =
     vec_sub (Vector2_of (rect_center (persons w ! i))) (Vector2_of (rect_center (persons w ! j)))"

fun spread_loop :: "world \<Rightarrow> nat \<Rightarrow> nat list \<Rightarrow> world" where
  "spread_loop w i [] = w"
| "spread_loop w i (j # js) =
     (let chance = transmission_chance (state (persons w ! j))
      in if j \<noteq> i then
           (let (u, w1) = random_random w
            in if u < chance then spread_loop (get_infected w1 j) i js else spread_loop w1 i js)
         else spread_loop w i js)"

definition spread :: "world \<Rightarrow> nat \<Rightarrow> nat list \<Rightarrow> world" where
  "spread w i nears =
     spread_loop w i (filter (\<lambda>j. vec_length (separation w i j) < infection_radius) nears)"

definition handle_infection :: "world \<Rightarrow> nat \<Rightarrow> nat list \<Rightarrow> error + world" where
  "handle_infection w i nears =
     (if \<not> truthy (infected_start (persons w ! i))
      then Inl (RuntimeError ''Infection start time not found'')
      else
        (let (t1, w1) = perf_counter w;
             w2 = (if MAX_INFECTION_DURATION \<le> t1 - the (infected_start (persons w1 ! i))
                   then end_infection w1 i else w1)
         in if travel_target (persons w2 ! i) = None then
              (let (t2, w3) = perf_counter w2
               in if INFECTION_EVENT_INTERVAL \<le> t2 - last_event (persons w3 ! i) then
                    (let (u1, w4) = random_random w3;
                         w5 = (if u1 < SPREAD_CHANCE then spread w4 i nears else w4);
                         (u2, w6) = random_random w5;
                         w7 = (if u2 < EARLY_TERMINATION_CHANCE then end_infection w6 i else w6);
                         (t3, w8) = perf_counter w7
                     in Inr (upd_person i (\<lambda>p. p\<lparr>last_event := t3\<rparr>) w8))
                  else Inr w3)
            else Inr w2))"

subsection \<open>Person: motion\<close>

definition avoid_walls :: "world \<Rightarrow> nat \<Rightarrow> world" where
  "avoid_walls w i =
     (let p = persons w ! i; c = rect_center p; b = active_bounds w p;
          turned =
            (if \<bar>fst c - bounds_left w b\<bar> < 10 then Some (1, 0)
             else if \<bar>fst c - bounds_right w b\<bar> < 10 then Some (- 1, 0)
             else if \<bar>snd c - bounds_top w b\<bar> < 10 then Some (0, 1)
             else if \<bar>snd c - bounds_bottom w b\<bar> < 10 then Some (0, - 1)
             else None)
      in case turned of
           None \<Rightarrow> w
         | Some d \<Rightarrow>
             (let w1 = upd_person i (\<lambda>p. p\<lparr>direction := d\<rparr>) w;
                  (u, w2) = random_random w1
              in if u < 1 / 2 then
                   (let (angle, w3) = random_randint (- 80) 80 w2
                    in upd_person i (rotate_ip angle) w3)
                 else w2))"

definition get_nearby :: "world \<Rightarrow> nat \<Rightarrow> nat list" where
  "get_nearby w i =
     (let self = persons w ! i;
          others = [0..<length (persons w)];
          nears = filter (\<lambda>j. let other = persons w ! j
                               in colliderect (Person_rect self) (Person_rect other)
                                \<and> state other \<noteq> DECEASED
                                \<and> travel_target other = None
                                \<and> active_bounds w self = active_bounds w other) others
      in filter (\<lambda>j. vec_length (separation w i j) < distancing_radius) nears)"

definition forces :: "world \<Rightarrow> nat \<Rightarrow> nat list \<Rightarrow> Vector2 list" where
  "forces w i nears =
     map (\<lambda>j. let diff_vector = separation w i j
              in vec_scale (vec_scale diff_vector PROXIMITY_COEFFICIENT)
                   ((1 - vec_length diff_vector / distancing_radius)\<^sup>2))
         (filter (\<lambda>j. vec_length (separation w i j) \<noteq> 0) nears)"

text \<open>
  \<open>social_distance\<close>, in two parts: the mean of the forces, normalised unless it is
  zero (\<open>force\<close> of the source), and the blend with the current direction.
\<close>

definition distancing_force :: "Vector2 list \<Rightarrow> error + Vector2" where
  "distancing_force fs =
     bind_result (reduce_add fs) (\<lambda>total.
     bind_result (vec_div total (of_nat (length fs))) (\<lambda>force0.
     if vec_bool force0 \<and> vec_length force0 \<noteq> 0 then vec_normalize force0 else Inr force0))"

definition intermediate :: "world \<Rightarrow> nat \<Rightarrow> Vector2 \<Rightarrow> Vector2" where
  "intermediate w i force =
     vec_add (direction (persons w ! i)) (vec_scale force (distancing_strength w))"

definition social_distance :: "world \<Rightarrow> nat \<Rightarrow> nat list \<Rightarrow> error + world" where
  "social_distance w i nears =
     (let fs = forces w i nears
      in if fs = [] then Inr w
         else
           bind_result (distancing_force fs) (\<lambda>force.
           bind_result (if vec_length (intermediate w i force) \<noteq> 0
                        then vec_normalize (intermediate w i force)
                        else Inr (direction (persons w ! i))) (\<lambda>d.
           Inr (upd_person i (\<lambda>p. p\<lparr>direction := d\<rparr>) w))))"

definition stay_in_bounds :: "world \<Rightarrow> nat \<Rightarrow> world" where
  "stay_in_bounds w i =
     (let p = persons w ! i; c = rect_center p; b = active_bounds w p;
          c' = (clamp (fst c) (bounds_left w b + radius) (bounds_right w b - radius),
                clamp (snd c) (bounds_top w b + radius) (bounds_bottom w b - radius))
      in upd_person i (\<lambda>p. set_rect (Rect_set_center c' (Person_rect p)) p) w)"

definition travel :: "world \<Rightarrow> nat \<Rightarrow> real \<Rightarrow> error + world" where
  "travel w i frametime =
     (let p = persons w ! i
      in case travel_target p of
           None \<Rightarrow> Inl (RuntimeError ''No target community found'')
         | Some t \<Rightarrow>
             (let hub = absolute_center_rect (communities w t);
                  to_target = vec_neg (vec_sub (Vector2_of (rect_center p))
                                               (Vector2_of (Rect_center hub)))
              in bind_result (if vec_bool to_target \<and> vec_length to_target \<noteq> 0
                              then vec_normalize to_target else Inr (direction p)) (\<lambda>d.
                 let r = move_ip (fst d * speed * TRAVEL_SPEED_MULTIPLIER * frametime)
                                 (snd d * speed * TRAVEL_SPEED_MULTIPLIER * frametime)
                                 (Person_rect p);
                     p1 = set_rect r (p\<lparr>direction := d\<rparr>);
                     p2 = (if collidepoint hub (rect_center p1)
                           then p1\<lparr>bounds_community := t, travel_target := None\<rparr>
                           else p1)
                 in Inr (upd_person i (\<lambda>_. p2) w))))"

definition move_person :: "world \<Rightarrow> nat \<Rightarrow> real \<Rightarrow> world" where
  "move_person w i frametime =
     upd_person i (\<lambda>p. set_rect (move_ip (fst (direction p) * speed * frametime)
                                         (snd (direction p) * speed * frametime)
                                         (Person_rect p)) p) w"

text \<open>
  \<open>operate\<close>. Its first statement, the random turn of the direction, is \<open>wander\<close>.
\<close>

definition wander :: "world \<Rightarrow> nat \<Rightarrow> world" where
  "wander w i =
     (let (u, w1) = random_random w
      in if u < 1 / 2
         then (let (angle, w2) = random_randint (- 10) 10 w1
               in upd_person i (rotate_ip angle) w2)
         else w1)"

definition operate :: "world \<Rightarrow> nat \<Rightarrow> real \<Rightarrow> bool \<Rightarrow> error + world" where
  "operate w i frametime distancing_toggle =
     (let w3 = avoid_walls (wander w i) i;
          nears = get_nearby w3 i
      in bind_result
           (if state (persons w3 ! i) = INFECTED \<and> truthy (infected_start (persons w3 ! i))
            then handle_infection w3 i nears else Inr w3) (\<lambda>w4.
         bind_result
           (if distancing_toggle \<and> distancing (persons w4 ! i) \<and> nears \<noteq> []
            then social_distance w4 i nears else Inr w4) (\<lambda>w5.
         Inr (stay_in_bounds (move_person w5 i frametime) i))))"

definition Person_update :: "world \<Rightarrow> nat \<Rightarrow> real \<Rightarrow> bool \<Rightarrow> error + world" where
  "Person_update w i frametime distancing_toggle =
     (if state (persons w ! i) = DECEASED then Inr w
      else if travel_target (persons w ! i) \<noteq> None then travel w i frametime
      else operate w i frametime distancing_toggle)"

text \<open>
  \<open>persons.update(...)\<close> of the main loop: \<open>Group.update\<close> calls \<open>update\<close> on every sprite
  of \<open>self.sprites()\<close> in turn; an exception of one call ends the pass.
\<close>

fun update_each :: "nat list \<Rightarrow> real \<Rightarrow> bool \<Rightarrow> world \<Rightarrow> error + world" where
  "update_each [] frametime distancing_toggle w = Inr w"
| "update_each (i # rest) frametime distancing_toggle w =
     bind_result (Person_update w i frametime distancing_toggle)
                 (update_each rest frametime distancing_toggle)"

definition persons_update :: "world \<Rightarrow> real \<Rightarrow> bool \<Rightarrow> error + world" where
  "persons_update w frametime distancing_toggle =
     update_each [0..<length (persons w)] frametime distancing_toggle w"

text \<open>
  Successive frames of the main loop, as far as the persons are concerned: one pass of
  \<open>persons.update\<close> per frame, each with its frame time and the value of the distancing
  toggle. An exception ends the loop.
\<close>

fun persons_updates :: "(real \<times> bool) list \<Rightarrow> world \<Rightarrow> error + world" where
  "persons_updates [] w = Inr w"
| "persons_updates ((frametime, distancing_toggle) # frames) w =
     bind_result (persons_update w frametime distancing_toggle) (persons_updates frames)"

subsection \<open>main.py: the event handlers on the population\<close>

text \<open>
  \<open>INFECT_ONE_PERSON\<close>: \<open>random.choice\<close> over the persons that are SUSCEPTIBLE or
  RECOVERED, then \<open>get_infected\<close>.
\<close>

definition infectible :: "world \<Rightarrow> nat list" where
  "infectible w =
     filter (\<lambda>j. state (persons w ! j) \<in> {SUSCEPTIBLE, RECOVERED}) [0..<length (persons w)]"

definition INFECT_ONE_PERSON :: "world \<Rightarrow> error + world" where
  "INFECT_ONE_PERSON w =
     bind_result (random_choice (infectible w) w) (\<lambda>(j, w1). Inr (get_infected w1 j))"

text \<open>
  \<open>ADJUST_DISTANCING_PERCENT\<close>: the target is \<open>int(distancing_percent.value/100 * len(persons))\<close>,
  a float division and a float multiplication (the length converts exactly), truncated.
\<close>

definition distancers :: "world \<Rightarrow> nat list" where
  "distancers w = filter (\<lambda>j. distancing (persons w ! j)) [0..<length (persons w)]"

definition non_distancers :: "world \<Rightarrow> nat list" where
  "non_distancers w = filter (\<lambda>j. \<not> distancing (persons w ! j)) [0..<length (persons w)]"

definition distancing_target :: "world \<Rightarrow> int" where
  "distancing_target w =
     py_int (binary64 (binary64 (nv_value (distancing_percent w) / 100)
                       * of_nat (length (persons w))))"

fun set_distancing_each :: "nat list \<Rightarrow> bool \<Rightarrow> world \<Rightarrow> world" where
  "set_distancing_each [] flag w = w"
| "set_distancing_each (j # js) flag w =
     set_distancing_each js flag (upd_person j (\<lambda>p. p\<lparr>distancing := flag\<rparr>) w)"

definition ADJUST_DISTANCING_PERCENT :: "world \<Rightarrow> error + world" where
  "ADJUST_DISTANCING_PERCENT w =
     (let target = distancing_target w;
          diff = target - int (length (distancers w))
      in bind_result
           (if diff \<noteq> 0 then
              (let (population, flag) = (if 0 < diff then (non_distancers w, True)
                                         else (distancers w, False))
               in bind_result (random_sample population \<bar>diff\<bar> w) (\<lambda>(change_distancing, w1).
                    Inr (set_distancing_each change_distancing flag w1)))
            else Inr w) (\<lambda>w2.
         Inr (w2\<lparr>distancing_percent := resolve_diff (distancing_percent w2)\<rparr>)))"

subsection \<open>Chart\<close>

text \<open>
  A sample of the chart is a tuple of fractions, one per entry of \<open>values\<close>, or the colour
  of an event marker. \<open>update\<close> takes the counts per state and, as parameters, the two
  readings of \<open>perf_counter\<close> it makes. After storing, the drawing loop reads
  \<open>self.data[i]\<close> for every column of the surface.
\<close>

datatype chart_sample = Fractions "real list" | Marker "int \<times> int \<times> int"

record Chart =
  chart_width :: nat
  chart_values :: "State list"
  data :: "chart_sample list"
  last_update :: real
  event_marker :: "(int \<times> int \<times> int) option"

definition update_interval :: real where "update_interval = 1"
definition snapshot_width :: nat where "snapshot_width = 1"

definition Chart_init :: "nat \<Rightarrow> State list \<Rightarrow> real \<Rightarrow> Chart" where
  "Chart_init width vals now =
     \<lparr>chart_width = width, chart_values = vals,
      data = replicate width (Fractions [0, 0, 1, 0]),
      last_update = now, event_marker = None\<rparr>"

definition mark_event :: "int \<times> int \<times> int \<Rightarrow> Chart \<Rightarrow> Chart" where
  "mark_event color c = c\<lparr>event_marker := Some color\<rparr>"

definition counts_total :: "(State \<Rightarrow> nat) \<Rightarrow> nat" where
  "counts_total d = d SUSCEPTIBLE + d INFECTED + d RECOVERED + d DECEASED"

fun store_samples :: "nat \<Rightarrow> (State \<Rightarrow> nat) \<Rightarrow> Chart \<Rightarrow> error + Chart" where
  "store_samples 0 d c = Inr c"
| "store_samples (Suc n) d c =
     (case event_marker c of
        Some m \<Rightarrow> store_samples n d (c\<lparr>data := data c @ [Marker m], event_marker := None\<rparr>)
      | None \<Rightarrow>
          (let total = counts_total d
           in if total = 0 then Inl ZeroDivisionError
              else
                (let entry = Fractions (map (\<lambda>v. of_nat (d v) / of_nat total) (chart_values c));
                     data1 = data c @ [entry];
                     overflow = int (length data1) - int (chart_width c);
                     data2 = (if overflow \<noteq> 0 then py_slice_from overflow data1 else data1)
                 in store_samples n d (c\<lparr>data := data2\<rparr>))))"

definition Chart_update :: "Chart \<Rightarrow> (State \<Rightarrow> nat) \<Rightarrow> real \<Rightarrow> real \<Rightarrow> error + Chart" where
  "Chart_update c d now1 now2 =
     bind_result
       (if update_interval \<le> now1 - last_update c
        then bind_result (store_samples snapshot_width d c) (\<lambda>c1. Inr (c1\<lparr>last_update := now2\<rparr>))
        else Inr c) (\<lambda>c2.
     if length (data c2) < chart_width c2 then Inl IndexError else Inr c2)"

subsection \<open>Predicates of the statements\<close>

text \<open>
  The containment of the center in the active bounds inset by the radius, and the
  condition on the bounds under which an inset box exists at all.
\<close>

definition in_bounds :: "world \<Rightarrow> Person \<Rightarrow> bool" where
  "in_bounds w p =
     (let c = rect_center p; b = active_bounds w p
      in bounds_left w b + radius \<le> fst c \<and> fst c \<le> bounds_right w b - radius
       \<and> bounds_top w b + radius \<le> snd c \<and> snd c \<le> bounds_bottom w b - radius)"

definition roomy :: "world \<Rightarrow> Person \<Rightarrow> bool" where
  "roomy w p =
     (let b = active_bounds w p
      in bounds_left w b + radius \<le> bounds_right w b - radius
       \<and> bounds_top w b + radius \<le> bounds_bottom w b - radius)"

text \<open>
  The hub of a community, and the vector from a person to the center of the hub as
  \<open>travel\<close> computes it.
\<close>

definition hub :: "world \<Rightarrow> nat \<Rightarrow> Rect" where
  "hub w t = absolute_center_rect (communities w t)"

definition to_target :: "world \<Rightarrow> Person \<Rightarrow> nat \<Rightarrow> Vector2" where
  "to_target w p t =
     vec_neg (vec_sub (Vector2_of (rect_center p)) (Vector2_of (Rect_center (hub w t))))"

subsection \<open>Relations between the world before and after an operation\<close>

text \<open>
  What the update of person \<open>i\<close> may do. \<open>motion_rel\<close>: only the direction and the
  position of person \<open>i\<close> and the counters of the oracles change. \<open>op_rel\<close>: no person
  changes its bounds or travel target, no other person moves, person \<open>i\<close> keeps its state
  or ends its infection, and another person keeps its state or becomes INFECTED (with
  \<open>strict\<close>: from SUSCEPTIBLE or RECOVERED). \<open>upd_rel\<close> is the part of \<open>op_rel\<close> about
  the other persons.
\<close>

definition only_moves :: "(Person \<Rightarrow> Person) \<Rightarrow> bool" where
  "only_moves f = (\<forall>p. f p = p\<lparr>direction := direction (f p), rect_topleft := rect_topleft (f p)\<rparr>)"

definition other_state_ok :: "bool \<Rightarrow> State \<Rightarrow> State \<Rightarrow> bool" where
  "other_state_ok strict s s' =
     (s' = s \<or> (s' = INFECTED \<and> (strict \<longrightarrow> s \<in> {SUSCEPTIBLE, RECOVERED})))"

definition same_tables :: "world \<Rightarrow> world \<Rightarrow> bool" where
  "same_tables w w' =
     (length (persons w') = length (persons w) \<and> communities w' = communities w
      \<and> regions w' = regions w \<and> random_stream w' = random_stream w
      \<and> distancing_strength w' = distancing_strength w)"

definition motion_rel :: "nat \<Rightarrow> world \<Rightarrow> world \<Rightarrow> bool" where
  "motion_rel i w w' =
     (same_tables w w'
      \<and> (\<forall>k. if k = i
              then persons w' ! k = (persons w ! k)\<lparr>direction := direction (persons w' ! k),
                                                   rect_topleft := rect_topleft (persons w' ! k)\<rparr>
              else persons w' ! k = persons w ! k))"

definition op_rel :: "bool \<Rightarrow> nat \<Rightarrow> world \<Rightarrow> world \<Rightarrow> bool" where
  "op_rel strict i w w' =
     (same_tables w w'
      \<and> (\<forall>k. bounds_community (persons w' ! k) = bounds_community (persons w ! k)
            \<and> bounds_region (persons w' ! k) = bounds_region (persons w ! k)
            \<and> travel_target (persons w' ! k) = travel_target (persons w ! k)
            \<and> (if k = i
                then state (persons w' ! k) = state (persons w ! k)
                   \<or> state (persons w' ! k) \<in> {RECOVERED, DECEASED}
                else rect_topleft (persons w' ! k) = rect_topleft (persons w ! k)
                   \<and> other_state_ok strict (state (persons w ! k)) (state (persons w' ! k)))))"

definition upd_rel :: "bool \<Rightarrow> nat \<Rightarrow> world \<Rightarrow> world \<Rightarrow> bool" where
  "upd_rel strict i w w' =
     (same_tables w w'
      \<and> (\<forall>k. k \<noteq> i \<longrightarrow>
             bounds_community (persons w' ! k) = bounds_community (persons w ! k)
           \<and> bounds_region (persons w' ! k) = bounds_region (persons w ! k)
           \<and> travel_target (persons w' ! k) = travel_target (persons w ! k)
           \<and> rect_topleft (persons w' ! k) = rect_topleft (persons w ! k)
           \<and> other_state_ok strict (state (persons w ! k)) (state (persons w' ! k))))"

subsection \<open>Concrete inputs\<close>

text \<open>
  A field of 1000 x 1000 with border 2, communities of 400 x 400 laid out in a row, and
  persons placed by their center. The generator returns the same variate \<open>u\<close> at every
  draw and the clock counts its readings.
\<close>

definition main_chart_values :: "State list" where
  "main_chart_values = [INFECTED, RECOVERED, SUSCEPTIBLE, DECEASED]"

definition example_region :: Region where
  "example_region = \<lparr>center = (500, 500), rsize = (1000, 1000), border_thickness = 2, active = True\<rparr>"

definition example_community :: "nat \<Rightarrow> Community" where
  "example_community k = Community_init (400, 400) (200 + 500 * int k, 200) 2"

definition example_person :: "int \<times> int \<Rightarrow> State \<Rightarrow> Person" where
  "example_person c s =
     \<lparr>bounds_community = 0, bounds_region = 0, distancing = False,
      rect_topleft = (fst c - surf_size div 2, snd c - surf_size div 2),
      state = s, direction = (1, 0), infected_start = None, infected_end = None,
      travel_target = None, last_event = 0\<rparr>"

definition example_world :: "Person list \<Rightarrow> real \<Rightarrow> world" where
  "example_world ps u =
     \<lparr>persons = ps, communities = example_community, regions = (\<lambda>_. example_region),
      distancing_percent = \<lparr>nv_value = 50, nv_old = 100\<rparr>, distancing_strength = 1,
      random_stream = (\<lambda>_. u), random_calls = 0,
      clock_stream = (\<lambda>k. of_nat k), clock_calls = 0\<rparr>"

text \<open>
  Three persons: the first two at the same point, the third 10 to the right of them; the
  first looks to the right.
\<close>

definition W9 :: world where
  "W9 = example_world [example_person (200, 200) SUSCEPTIBLE, example_person (200, 200) RECOVERED,
                       example_person (210, 200) SUSCEPTIBLE] (1 / 2)"

text \<open>
  A person on its way to community 1, 6 inside the right edge of the inset box of
  community 0, and the same person 2 further to the right.
\<close>

definition traveller :: "int \<times> int \<Rightarrow> State \<Rightarrow> nat \<Rightarrow> Person" where
  "traveller c s t = (example_person c s)\<lparr>travel_target := Some t\<rparr>"

definition W1 :: world where
  "W1 = example_world [traveller (394, 200) SUSCEPTIBLE 1] (1 / 2)"

definition W1_after :: world where
  "W1_after = example_world [traveller (396, 200) SUSCEPTIBLE 1] (1 / 2)"

text \<open>
  A DECEASED person at (200, 200), an INFECTED person 10 to its right and a SUSCEPTIBLE
  person a further 10 to the right, with every variate equal to 1/4.
\<close>

definition W2 :: world where
  "W2 = example_world [example_person (200, 200) DECEASED, example_person (210, 200) INFECTED,
                       example_person (220, 200) SUSCEPTIBLE] (1 / 4)"

text \<open>
  A person spawned INFECTED (so \<open>infected_start\<close> is None) in the middle of community 0,
  and the same person after one update of 10 ms, in which only the first draw of
  \<open>operate\<close> is made.
\<close>

definition W7 :: world where
  "W7 = example_world [example_person (200, 200) INFECTED] (1 / 2)"

definition W7_after :: world where
  "W7_after = (example_world [example_person (201, 200) INFECTED] (1 / 2))\<lparr>random_calls := Suc 0\<rparr>"





text \<open>
  Three persons that do not distance, with the distancing percent at 50 and every
  variate equal to 0, and the world after the rebalancing: the first person distances.
\<close>

definition W5 :: world where
  "W5 = example_world [example_person (100, 100) SUSCEPTIBLE, example_person (200, 200) SUSCEPTIBLE,
                       example_person (300, 300) SUSCEPTIBLE] 0"

definition W5_after :: world where
  "W5_after =
     (example_world [(example_person (100, 100) SUSCEPTIBLE)\<lparr>distancing := True\<rparr>,
                     example_person (200, 200) SUSCEPTIBLE,
                     example_person (300, 300) SUSCEPTIBLE] 0)
       \<lparr>distancing_percent := \<lparr>nv_value = 50, nv_old = 50\<rparr>, random_calls := Suc 0\<rparr>"

text \<open>
  Two hundred persons (the default population) that do not distance, with the distancing
  percent at 29.
\<close>

definition W29 :: world where
  "W29 = (example_world (replicate 200 (example_person (200, 200) SUSCEPTIBLE)) (1 / 2))
           \<lparr>distancing_percent := \<lparr>nv_value = 29, nv_old = 100\<rparr>\<rparr>"

text \<open>
  An INFECTED person whose infection began at time 1, with the clock at 100 and the
  variates 1/2, 0, 1/2, 0, 1/2, 1/2, ...: the world before its update, inside
  \<open>handle_infection\<close> after the first \<open>end_infection\<close>, after the update, and after one
  more update.
\<close>

definition dying_world :: "Person \<Rightarrow> nat \<Rightarrow> nat \<Rightarrow> world" where
  "dying_world p r c =
     \<lparr>persons = [p], communities = example_community, regions = (\<lambda>_. example_region),
      distancing_percent = \<lparr>nv_value = 50, nv_old = 100\<rparr>, distancing_strength = 1,
      random_stream = (\<lambda>k. if k = 1 \<or> k = 3 then 0 else 1 / 2), random_calls = r,
      clock_stream = (\<lambda>k. 100 + of_nat k), clock_calls = c\<rparr>"

definition W2_dying :: world where
  "W2_dying = dying_world ((example_person (200, 200) INFECTED)\<lparr>infected_start := Some 1\<rparr>) 0 0"

definition W2_dead :: world where
  "W2_dead = dying_world ((example_person (200, 200) DECEASED)
                \<lparr>infected_start := Some 1, infected_end := Some 101\<rparr>) 2 2"

definition W2_revived :: world where
  "W2_revived = dying_world ((example_person (201, 200) RECOVERED)
                \<lparr>distancing := True, infected_start := Some 1, infected_end := Some 103,
                  last_event := 104\<rparr>) 6 5"

definition W2_next :: world where
  "W2_next = dying_world ((example_person (202, 200) RECOVERED)
                \<lparr>distancing := True, infected_start := Some 1, infected_end := Some 103,
                  last_event := 104\<rparr>) 7 5"

section \<open>Properties\<close>

subsection \<open>Chart: the buffer after an event marker\<close>

lemma store_proportional_length:
  assumes "event_marker c = None" and "counts_total d \<noteq> 0" and "chart_width c \<le> length (data c)"
  shows "\<exists>c'. store_samples (Suc 0) d c = Inr c' \<and> length (data c') = chart_width c"
  using assms by (simp add: Let_def py_slice_from_def)

text \<open>
  C4 (the chart buffer has exactly the configured width after every append). On a chart
  of width 3 with an event marker set, one update appends the marker and does not
  truncate: the buffer then holds 4 samples.
\<close>

theorem C4_marker_append_overflows:
  "\<exists>c'. Chart_update (mark_event (0, 255, 255) (Chart_init 3 main_chart_values 0))
           (\<lambda>s. if s = SUSCEPTIBLE then 10 else 0) 1 1 = Inr c'
        \<and> chart_width c' = 3 \<and> length (data c') = 4"
  by (simp add: Chart_update_def mark_event_def Chart_init_def update_interval_def
      snapshot_width_def bind_result_def)

subsection \<open>Infect one person\<close>

text \<open>
  C6 (infect-one on an empty eligible pool is a no-op). With no person at all, and with
  a single person that is already INFECTED, the handler raises IndexError.
\<close>

theorem C6_infect_one_empty_pool_raises:
  "INFECT_ONE_PERSON (example_world [] 0) = Inl IndexError
   \<and> INFECT_ONE_PERSON (example_world [example_person (200, 200) INFECTED] 0) = Inl IndexError"
  by (simp add: INFECT_ONE_PERSON_def infectible_def random_choice_def bind_result_def
      example_world_def example_person_def)

subsection \<open>Social distancing\<close>

lemma vec_length_zero_iff: "vec_length a = 0 \<longleftrightarrow> a = (0, 0)"
proof -
  have "fst a * fst a + snd a * snd a = 0 \<longleftrightarrow> fst a = 0 \<and> snd a = 0"
    by (simp add: sum_squares_eq_zero_iff)
  then show ?thesis
    by (cases a) (simp add: vec_length_def)
qed

lemma separation_self: "separation w i i = (0, 0)"
  by (simp add: separation_def vec_sub_def)

lemma distancing_force_total: "fs \<noteq> [] \<Longrightarrow> \<exists>f. distancing_force fs = Inr f"
  by (cases fs) (auto simp: distancing_force_def reduce_add_def vec_div_def bind_result_def vec_normalize_def)

lemma social_distance_total: "\<exists>w'. social_distance w i nears = Inr w'"
proof (cases "forces w i nears = []")
  case True
  then show ?thesis by (simp add: social_distance_def)
next
  case False
  then obtain f where "distancing_force (forces w i nears) = Inr f"
    using distancing_force_total by blast
  with False show ?thesis
    by (simp add: social_distance_def bind_result_def vec_normalize_def)
qed

lemma forces_drop_zero:
  "forces w i nears = forces w i (filter (\<lambda>j. vec_length (separation w i j) \<noteq> 0) nears)"
  by (simp add: forces_def)

lemma upd_person_same: "upd_person i (\<lambda>p. p\<lparr>direction := direction (persons w ! i)\<rparr>) w = w"
  by (simp add: upd_person_def)

lemma vec_length_x: "vec_length (a, 0) = \<bar>a\<bar>"
  by (simp add: vec_length_def)

lemma vec_length_separation_zero:
  "vec_length (separation w i j) = 0 \<longleftrightarrow> rect_center (persons w ! i) = rect_center (persons w ! j)"
  by (auto simp: vec_length_zero_iff separation_def vec_sub_def Vector2_of_def prod_eq_iff)

text \<open>
  C9. A neighbour at distance 0 (equal centers) is dropped from the forces;
  \<open>social_distance\<close> never raises, so neither the division by the number of forces nor a
  normalisation meets a zero; a single neighbour at distance 0 gives no force and leaves
  the world as it is; and when the blended vector has length zero the previous direction
  is kept.
\<close>

theorem C9_zero_separation_excluded:
  "(vec_length (separation w i j) = 0 \<longleftrightarrow> rect_center (persons w ! i) = rect_center (persons w ! j))
   \<and> forces w i nears = forces w i (filter (\<lambda>k. vec_length (separation w i k) \<noteq> 0) nears)
   \<and> (\<exists>w'. social_distance w i nears = Inr w')
   \<and> (vec_length (separation w i j) = 0 \<longrightarrow> forces w i [j] = [] \<and> social_distance w i [j] = Inr w)
   \<and> (distancing_force (forces w i nears) = Inr force \<and> vec_length (intermediate w i force) = 0
        \<longrightarrow> social_distance w i nears = Inr w)"
proof -
  have a: "forces w i nears = forces w i (filter (\<lambda>k. vec_length (separation w i k) \<noteq> 0) nears)"
    by (rule forces_drop_zero)
  have b: "\<exists>w'. social_distance w i nears = Inr w'"
    by (rule social_distance_total)
  have c: "vec_length (separation w i j) = 0 \<longrightarrow> forces w i [j] = [] \<and> social_distance w i [j] = Inr w"
    by (simp add: forces_def social_distance_def)
  have d: "distancing_force (forces w i nears) = Inr force \<and> vec_length (intermediate w i force) = 0
        \<longrightarrow> social_distance w i nears = Inr w"
    by (simp add: social_distance_def Let_def bind_result_def upd_person_same)
  from a b c d vec_length_separation_zero show ?thesis by blast
qed

lemma W9_centers:
  "rect_center (persons W9 ! 0) = (200, 200)" "rect_center (persons W9 ! Suc 0) = (200, 200)"
  "rect_center (persons W9 ! 2) = (210, 200)"
  by (simp_all add: W9_def example_world_def example_person_def rect_center_def Rect_center_def
      Person_rect_def surf_size_def radius_def)

lemma W9_seps: "separation W9 0 (Suc 0) = (0, 0)" "separation W9 0 2 = (- 10, 0)"
  by (simp_all add: separation_def W9_centers vec_sub_def Vector2_of_def)

lemma W9_force: "distancing_force (forces W9 0 [Suc 0, 2]) = Inr (- 1, 0)"
  by (simp add: forces_def W9_seps vec_length_x distancing_force_def reduce_add_def vec_div_def
      vec_bool_def vec_normalize_def bind_result_def vec_scale_def PROXIMITY_COEFFICIENT_def
      distancing_radius_def radius_def power2_eq_square)

lemma W9_blend: "vec_length (intermediate W9 0 (- 1, 0)) = 0"
  by (simp add: intermediate_def W9_def example_world_def example_person_def vec_add_def
      vec_scale_def vec_length_x)

theorem C9_zero_separation_excluded_witness:
  "vec_length (separation W9 0 (Suc 0)) = 0 \<and> forces W9 0 [Suc 0] = [] \<and> social_distance W9 0 [Suc 0] = Inr W9
   \<and> distancing_force (forces W9 0 [Suc 0, 2]) = Inr (- 1, 0)
   \<and> vec_length (intermediate W9 0 (- 1, 0)) = 0
   \<and> social_distance W9 0 [Suc 0, 2] = Inr W9
   \<and> forces W9 0 [Suc 0, 2] = forces W9 0 [2]"
proof -
  have z: "vec_length (separation W9 0 (Suc 0)) = 0" by (simp add: W9_seps vec_length_x)
  have n: "vec_length (separation W9 0 2) \<noteq> 0" by (simp add: W9_seps vec_length_x)
  from C9_zero_separation_excluded [of W9 0 "Suc 0" "[Suc 0, 2]" "(- 1, 0)"] z n W9_force W9_blend
  show ?thesis by simp
qed

subsection \<open>The neighbour query\<close>

lemma colliderect_self: "colliderect (Person_rect p) (Person_rect p)"
  by (simp add: colliderect_def Person_rect_def surf_size_def radius_def)

lemma get_nearby_self:
  assumes "i < length (persons w)" and "state (persons w ! i) \<noteq> DECEASED"
    and "travel_target (persons w ! i) = None"
  shows "i \<in> set (get_nearby w i)"
  using assms
  by (simp add: get_nearby_def Let_def colliderect_self separation_self vec_length_def
      distancing_radius_def radius_def)

lemma persons_get_infected_other: "k \<noteq> j \<Longrightarrow> persons (get_infected w j) ! k = persons w ! k"
  by (simp add: get_infected_def perf_counter_def random_random_def upd_person_def)

lemma spread_loop_self: "persons (spread_loop w i js) ! i = persons w ! i"
proof (induction js arbitrary: w)
  case Nil
  then show ?case by simp
next
  case (Cons j js)
  show ?case
  proof (cases "j = i")
    case True
    with Cons show ?thesis by simp
  next
    case False
    then show ?thesis
      by (simp add: Cons Let_def random_random_def persons_get_infected_other split: prod.splits)
  qed
qed

lemma forces_drop_self: "forces w i nears = forces w i (filter (\<lambda>j. j \<noteq> i) nears)"
proof -
  have "(\<lambda>j. vec_length (separation w i j) \<noteq> 0 \<and> j \<noteq> i) = (\<lambda>j. vec_length (separation w i j) \<noteq> 0)"
    by (auto simp: separation_self vec_length_def)
  then show ?thesis
    by (simp add: forces_def conj_commute)
qed

text \<open>
  C10. A live person that is not travelling is in its own list of neighbours; \<open>spread\<close>
  leaves the spreading person itself as it is (the test \<open>other is not self\<close>), and the
  person itself adds no force in \<open>social_distance\<close>.
\<close>

theorem C10_get_nearby_contains_self:
  assumes "i < length (persons w)" and "state (persons w ! i) \<noteq> DECEASED"
    and "travel_target (persons w ! i) = None"
  shows "i \<in> set (get_nearby w i)
       \<and> persons (spread w i (get_nearby w i)) ! i = persons w ! i
       \<and> forces w i (get_nearby w i) = forces w i (filter (\<lambda>j. j \<noteq> i) (get_nearby w i))"
  using get_nearby_self [OF assms] spread_loop_self forces_drop_self
  by (simp add: spread_def)

theorem C10_get_nearby_contains_self_witness:
  "(0::nat) < length (persons W9) \<and> state (persons W9 ! 0) \<noteq> DECEASED
   \<and> travel_target (persons W9 ! 0) = None
   \<and> 0 \<in> set (get_nearby W9 0)
   \<and> persons (spread W9 0 (get_nearby W9 0)) ! 0 = persons W9 ! 0
   \<and> forces W9 0 (get_nearby W9 0) = forces W9 0 (filter (\<lambda>j. j \<noteq> 0) (get_nearby W9 0))"
proof -
  have h: "(0::nat) < length (persons W9)" "state (persons W9 ! 0) \<noteq> DECEASED"
    "travel_target (persons W9 ! 0) = None"
    by (simp_all add: W9_def example_world_def example_person_def)
  from C10_get_nearby_contains_self [OF h] h show ?thesis by simp
qed

subsection \<open>The relations are preorders\<close>

lemma same_tables_refl: "same_tables w w"
  by (simp add: same_tables_def)

lemma same_tables_trans: "same_tables a b \<Longrightarrow> same_tables b c \<Longrightarrow> same_tables a c"
  by (simp add: same_tables_def)

lemma motion_rel_refl: "motion_rel i w w"
  by (simp add: motion_rel_def same_tables_refl)

lemma motion_rel_trans:
  assumes "motion_rel i a b" and "motion_rel i b c"
  shows "motion_rel i a c"
proof -
  have t: "same_tables a c"
    using assms same_tables_trans by (auto simp: motion_rel_def)
  have others: "persons c ! k = persons a ! k" if "k \<noteq> i" for k
    using assms that by (simp add: motion_rel_def)
  have b: "persons b ! i = (persons a ! i)\<lparr>direction := direction (persons b ! i),
              rect_topleft := rect_topleft (persons b ! i)\<rparr>"
    using assms(1) unfolding motion_rel_def by (auto split: if_splits)
  have c: "persons c ! i = (persons b ! i)\<lparr>direction := direction (persons c ! i),
              rect_topleft := rect_topleft (persons c ! i)\<rparr>"
    using assms(2) unfolding motion_rel_def by (auto split: if_splits)
  have "persons c ! i = (persons a ! i)\<lparr>direction := direction (persons c ! i),
              rect_topleft := rect_topleft (persons c ! i)\<rparr>"
    by (subst c, subst b) simp
  with t others show ?thesis
    by (simp add: motion_rel_def)
qed

lemma other_state_ok_refl: "other_state_ok strict s s"
  by (simp add: other_state_ok_def)

lemma other_state_ok_trans:
  "other_state_ok strict s s' \<Longrightarrow> other_state_ok strict s' s'' \<Longrightarrow> other_state_ok strict s s''"
  by (auto simp: other_state_ok_def)

lemma op_rel_refl: "op_rel strict i w w"
  by (simp add: op_rel_def same_tables_refl other_state_ok_refl)

lemma op_rel_trans:
  assumes "op_rel strict i a b" and "op_rel strict i b c"
  shows "op_rel strict i a c"
proof -
  have t: "same_tables a c"
    using assms same_tables_trans by (auto simp: op_rel_def)
  have self: "state (persons c ! i) = state (persons a ! i) \<or> state (persons c ! i) \<in> {RECOVERED, DECEASED}"
    using assms unfolding op_rel_def by (metis (full_types))
  have other: "rect_topleft (persons c ! k) = rect_topleft (persons a ! k)
      \<and> other_state_ok strict (state (persons a ! k)) (state (persons c ! k))" if "k \<noteq> i" for k
    using assms that other_state_ok_trans unfolding op_rel_def by (metis (full_types))
  have bounds: "bounds_community (persons c ! k) = bounds_community (persons a ! k)
            \<and> bounds_region (persons c ! k) = bounds_region (persons a ! k)
            \<and> travel_target (persons c ! k) = travel_target (persons a ! k)" for k
    using assms unfolding op_rel_def by simp
  from t self other bounds show ?thesis
    unfolding op_rel_def by simp
qed

lemma motion_imp_op:
  assumes "motion_rel i w w'"
  shows "op_rel strict i w w'"
proof -
  have o: "persons w' ! k = persons w ! k" if "k \<noteq> i" for k
    using assms that by (simp add: motion_rel_def)
  have s: "persons w' ! i = (persons w ! i)\<lparr>direction := direction (persons w' ! i),
              rect_topleft := rect_topleft (persons w' ! i)\<rparr>"
    using assms unfolding motion_rel_def by (auto split: if_splits)
  have s1: "state (persons w' ! i) = state (persons w ! i)"
    "bounds_community (persons w' ! i) = bounds_community (persons w ! i)"
    "bounds_region (persons w' ! i) = bounds_region (persons w ! i)"
    "travel_target (persons w' ! i) = travel_target (persons w ! i)"
    by (subst s, simp)+
  have "same_tables w w'" using assms by (simp add: motion_rel_def)
  with o s1 show ?thesis
    unfolding op_rel_def by (auto simp: other_state_ok_refl)
qed

lemma op_imp_upd: "op_rel strict i w w' \<Longrightarrow> upd_rel strict i w w'"
  unfolding op_rel_def upd_rel_def by simp

subsection \<open>Steps that only move a person\<close>

lemma motion_random_calls: "motion_rel i w (w\<lparr>random_calls := n\<rparr>)"
  by (simp add: motion_rel_def same_tables_def)

lemma motion_clock_calls: "motion_rel i w (w\<lparr>clock_calls := n\<rparr>)"
  by (simp add: motion_rel_def same_tables_def)

lemma motion_upd_person:
  assumes "only_moves f"
  shows "motion_rel i w (upd_person i f w)"
proof (cases "i < length (persons w)")
  case True
  have "f (persons w ! i) = (persons w ! i)\<lparr>direction := direction (f (persons w ! i)),
          rect_topleft := rect_topleft (f (persons w ! i))\<rparr>"
    using assms unfolding only_moves_def by blast
  with True show ?thesis
    by (simp add: motion_rel_def same_tables_def upd_person_def)
next
  case False
  then show ?thesis
    by (simp add: motion_rel_def same_tables_def upd_person_def list_update_beyond)
qed

lemma only_moves_rotate_ip: "only_moves (rotate_ip angle)"
  by (simp add: only_moves_def rotate_ip_def)

lemma only_moves_direction: "only_moves (\<lambda>p. p\<lparr>direction := d\<rparr>)"
  by (simp add: only_moves_def)

lemma only_moves_set_rect: "only_moves (\<lambda>p. set_rect (g p) p)"
  by (simp add: only_moves_def set_rect_def)

lemma motion_wander: "motion_rel i w (wander w i)"
proof -
  let ?w1 = "w\<lparr>random_calls := Suc (random_calls w)\<rparr>"
  let ?w2 = "?w1\<lparr>random_calls := Suc (random_calls ?w1)\<rparr>"
  have 1: "motion_rel i w ?w1" by (rule motion_random_calls)
  have 2: "motion_rel i w ?w2"
    by (rule motion_rel_trans [OF 1 motion_random_calls])
  have 3: "motion_rel i w (upd_person i (rotate_ip a) ?w2)" for a
    by (rule motion_rel_trans [OF 2 motion_upd_person [OF only_moves_rotate_ip]])
  show ?thesis
    using 1 3 by (simp add: wander_def random_random_def random_randint_def Let_def)
qed

lemma motion_avoid_walls: "motion_rel i w (avoid_walls w i)"
proof -
  have step: "motion_rel i w
     (let w1 = upd_person i (\<lambda>p. p\<lparr>direction := d\<rparr>) w;
          (u, w2) = random_random w1
      in if u < 1 / 2 then
           (let (angle, w3) = random_randint (- 80) 80 w2
            in upd_person i (rotate_ip angle) w3)
         else w2)" for d
  proof -
    let ?w1 = "upd_person i (\<lambda>p. p\<lparr>direction := d\<rparr>) w"
    let ?w2 = "?w1\<lparr>random_calls := Suc (random_calls ?w1)\<rparr>"
    let ?w3 = "?w2\<lparr>random_calls := Suc (random_calls ?w2)\<rparr>"
    have 1: "motion_rel i w ?w1" by (rule motion_upd_person [OF only_moves_direction])
    have 2: "motion_rel i w ?w2" by (rule motion_rel_trans [OF 1 motion_random_calls])
    have 3: "motion_rel i w ?w3" by (rule motion_rel_trans [OF 2 motion_random_calls])
    have 4: "motion_rel i w (upd_person i (rotate_ip a) ?w3)" for a
      by (rule motion_rel_trans [OF 3 motion_upd_person [OF only_moves_rotate_ip]])
    show ?thesis
      using 2 4 by (simp add: random_random_def random_randint_def Let_def)
  qed
  show ?thesis
    unfolding avoid_walls_def Let_def
    using step [unfolded Let_def] motion_rel_refl [of i w]
    by (simp split: option.splits)
qed

lemma motion_social_distance:
  "\<exists>w'. social_distance w i nears = Inr w' \<and> motion_rel i w w'"
proof (cases "forces w i nears = []")
  case True
  then show ?thesis by (simp add: social_distance_def motion_rel_refl)
next
  case False
  then obtain f where "distancing_force (forces w i nears) = Inr f"
    using distancing_force_total by blast
  with False show ?thesis
    by (simp add: social_distance_def bind_result_def vec_normalize_def
        motion_upd_person [OF only_moves_direction])
qed

lemma motion_move_person: "motion_rel i w (move_person w i frametime)"
  unfolding move_person_def by (rule motion_upd_person [OF only_moves_set_rect])

lemma motion_stay_in_bounds: "motion_rel i w (stay_in_bounds w i)"
  unfolding stay_in_bounds_def Let_def by (rule motion_upd_person [OF only_moves_set_rect])

subsection \<open>Steps of the infection\<close>

lemma op_random_calls: "op_rel strict i w (w\<lparr>random_calls := n\<rparr>)"
  by (rule motion_imp_op [OF motion_random_calls])

lemma op_clock_calls: "op_rel strict i w (w\<lparr>clock_calls := n\<rparr>)"
  by (rule motion_imp_op [OF motion_clock_calls])

lemma op_upd_self:
  assumes "\<And>p. bounds_community (f p) = bounds_community p \<and> bounds_region (f p) = bounds_region p
      \<and> travel_target (f p) = travel_target p
      \<and> (state (f p) = state p \<or> state (f p) \<in> {RECOVERED, DECEASED})"
  shows "op_rel strict i w (upd_person i f w)"
proof (cases "i < length (persons w)")
  case True
  with assms [of "persons w ! i"] show ?thesis
    by (simp add: op_rel_def same_tables_def upd_person_def other_state_ok_refl)
next
  case False
  then show ?thesis
    by (simp add: op_rel_def same_tables_def upd_person_def list_update_beyond other_state_ok_refl)
qed

lemma op_upd_other:
  assumes "j \<noteq> i"
    and "\<And>p. bounds_community (f p) = bounds_community p \<and> bounds_region (f p) = bounds_region p
      \<and> travel_target (f p) = travel_target p \<and> rect_topleft (f p) = rect_topleft p"
    and "other_state_ok strict (state (persons w ! j)) (state (f (persons w ! j)))"
  shows "op_rel strict i w (upd_person j f w)"
proof (cases "j < length (persons w)")
  case True
  with assms(1,3) assms(2) [of "persons w ! j"] show ?thesis
    by (simp add: op_rel_def same_tables_def upd_person_def other_state_ok_refl nth_list_update)
next
  case False
  then show ?thesis
    by (simp add: op_rel_def same_tables_def upd_person_def list_update_beyond other_state_ok_refl)
qed

lemma op_get_infected:
  assumes "j \<noteq> i" and "strict \<longrightarrow> state (persons w ! j) \<in> {SUSCEPTIBLE, RECOVERED}"
  shows "op_rel strict i w (get_infected w j)"
proof -
  let ?w1 = "w\<lparr>clock_calls := Suc (clock_calls w)\<rparr>"
  let ?w2 = "?w1\<lparr>clock_calls := Suc (clock_calls ?w1)\<rparr>"
  let ?w3 = "?w2\<lparr>random_calls := Suc (random_calls ?w2)\<rparr>"
  let ?w4 = "?w3\<lparr>random_calls := Suc (random_calls ?w3)\<rparr>"
  have 4: "op_rel strict i w ?w4"
    by (intro op_rel_trans [OF _ op_random_calls] op_rel_trans [OF _ op_clock_calls] op_rel_refl)
  have p: "persons ?w4 = persons w" by simp
  have "op_rel strict i ?w4 (upd_person j f ?w4)"
    if "f = (\<lambda>p. p\<lparr>infected_start := a, infected_end := b, last_event := c, state := INFECTED,
                     distancing := d\<rparr>)" for f a b c d
    using assms unfolding that
    by (intro op_upd_other) (simp_all add: other_state_ok_def)
  with 4 show ?thesis
    unfolding get_infected_def perf_counter_def random_random_def Let_def prod.case
    by (blast intro: op_rel_trans)
qed

lemma op_die: "op_rel strict i w (die w i)"
  unfolding die_def by (rule op_upd_self) simp

lemma op_recover: "op_rel strict i w (recover w i)"
  unfolding recover_def random_random_def Let_def prod.case
  by (rule op_rel_trans [OF op_random_calls op_upd_self]) simp

lemma op_end_infection: "op_rel strict i w (end_infection w i)"
proof -
  let ?w1 = "w\<lparr>clock_calls := Suc (clock_calls w)\<rparr>"
  let ?w2 = "upd_person i (\<lambda>p. p\<lparr>infected_end := Some (clock_stream w (clock_calls w))\<rparr>) ?w1"
  let ?w3 = "?w2\<lparr>random_calls := Suc (random_calls ?w2)\<rparr>"
  have 2: "op_rel strict i w ?w2"
    by (rule op_rel_trans [OF op_clock_calls op_upd_self]) simp
  have 3: "op_rel strict i w ?w3"
    by (rule op_rel_trans [OF 2 op_random_calls])
  have "op_rel strict i w (die ?w3 i)" "op_rel strict i w (recover ?w3 i)"
    using 3 op_die op_recover by (blast intro: op_rel_trans)+
  then show ?thesis
    by (simp add: end_infection_def perf_counter_def random_random_def Let_def)
qed

lemma op_spread_loop:
  assumes "strict \<longrightarrow> valid_rng (random_stream w)"
  shows "op_rel strict i w (spread_loop w i js)"
  using assms
proof (induction js arbitrary: w)
  case Nil
  then show ?case by (simp add: op_rel_refl)
next
  case (Cons j js)
  show ?case
  proof (cases "j = i")
    case True
    with Cons show ?thesis by simp
  next
    case False
    let ?u = "random_stream w (random_calls w)"
    let ?w1 = "w\<lparr>random_calls := Suc (random_calls w)\<rparr>"
    have 1: "op_rel strict i w ?w1" by (rule op_random_calls)
    have v1: "strict \<longrightarrow> valid_rng (random_stream ?w1)"
      using Cons.prems by simp
    show ?thesis
    proof (cases "?u < transmission_chance (state (persons w ! j))")
      case hit: True
      have "strict \<longrightarrow> state (persons ?w1 ! j) \<in> {SUSCEPTIBLE, RECOVERED}"
      proof
        assume strict
        with Cons.prems have "0 \<le> ?u" by (simp add: valid_rng_def)
        with hit have "0 < transmission_chance (state (persons w ! j))" by simp
        then show "state (persons ?w1 ! j) \<in> {SUSCEPTIBLE, RECOVERED}"
          by (cases "state (persons w ! j)") (simp_all add: transmission_chance_def)
      qed
      with False have g: "op_rel strict i ?w1 (get_infected ?w1 j)"
        by (intro op_get_infected) simp_all
      have "same_tables ?w1 (get_infected ?w1 j)"
        using g by (simp add: op_rel_def)
      with v1 have "strict \<longrightarrow> valid_rng (random_stream (get_infected ?w1 j))"
        by (simp add: same_tables_def)
      then have "op_rel strict i (get_infected ?w1 j) (spread_loop (get_infected ?w1 j) i js)"
        by (rule Cons.IH)
      with 1 g have "op_rel strict i w (spread_loop (get_infected ?w1 j) i js)"
        by (blast intro: op_rel_trans)
      with False hit show ?thesis
        by (simp add: random_random_def Let_def)
    next
      case miss: False
      have "op_rel strict i ?w1 (spread_loop ?w1 i js)"
        using v1 by (rule Cons.IH)
      with 1 have "op_rel strict i w (spread_loop ?w1 i js)"
        by (blast intro: op_rel_trans)
      with False miss show ?thesis
        by (simp add: random_random_def Let_def)
    qed
  qed
qed

lemma op_spread:
  "strict \<longrightarrow> valid_rng (random_stream w) \<Longrightarrow> op_rel strict i w (spread w i nears)"
  unfolding spread_def by (rule op_spread_loop)

lemma op_rel_valid_rng:
  "op_rel strict i w w' \<Longrightarrow> strict \<longrightarrow> valid_rng (random_stream w)
     \<Longrightarrow> strict \<longrightarrow> valid_rng (random_stream w')"
  by (simp add: op_rel_def same_tables_def)

lemma op_handle_infection:
  assumes rng: "strict \<longrightarrow> valid_rng (random_stream w)"
    and start: "truthy (infected_start (persons w ! i))"
  shows "\<exists>w'. handle_infection w i nears = Inr w' \<and> op_rel strict i w w'"
proof -
  define P where "P w' \<longleftrightarrow> op_rel strict i w w' \<and> (strict \<longrightarrow> valid_rng (random_stream w'))" for w'
  have P0: "P w"
    using rng by (simp add: P_def op_rel_refl)
  have step: "P w''" if "P w'" and "op_rel strict i w' w''" for w' w''
    using that op_rel_trans op_rel_valid_rng unfolding P_def by blast
  have Pclock: "P (w'\<lparr>clock_calls := n\<rparr>)" if "P w'" for w' n
    using that op_clock_calls by (rule step)
  have Prandom: "P (w'\<lparr>random_calls := n\<rparr>)" if "P w'" for w' n
    using that op_random_calls by (rule step)
  have Pend: "P (end_infection w' i)" if "P w'" for w'
    using that op_end_infection by (rule step)
  have Pspread: "P (spread w' i nears)" if "P w'" for w'
  proof -
    from that have "strict \<longrightarrow> valid_rng (random_stream w')" by (simp add: P_def)
    then have "op_rel strict i w' (spread w' i nears)" by (rule op_spread)
    with that show ?thesis by (rule step)
  qed
  have Plast: "P (upd_person i (\<lambda>p. p\<lparr>last_event := t\<rparr>) w')" if "P w'" for w' t
  proof -
    have "op_rel strict i w' (upd_person i (\<lambda>p. p\<lparr>last_event := t\<rparr>) w')"
      by (rule op_upd_self) simp
    with that show ?thesis by (rule step)
  qed
  have "\<exists>w'. handle_infection w i nears = Inr w' \<and> P w'"
    using start
    by (auto simp: handle_infection_def perf_counter_def random_random_def Let_def
        intro!: P0 Pclock Prandom Pend Pspread Plast)
  then show ?thesis by (auto simp: P_def)
qed

lemma operate_shape:
  assumes rng: "strict \<longrightarrow> valid_rng (random_stream w)"
  shows "\<exists>w6. operate w i frametime distancing_toggle = Inr (stay_in_bounds w6 i)
            \<and> op_rel strict i w w6"
proof -
  define w3 where "w3 = avoid_walls (wander w i) i"
  define nears where "nears = get_nearby w3 i"
  have m3: "motion_rel i w w3"
    unfolding w3_def by (rule motion_rel_trans [OF motion_wander motion_avoid_walls])
  then have o3: "op_rel strict i w w3" by (rule motion_imp_op)
  from o3 rng have rng3: "strict \<longrightarrow> valid_rng (random_stream w3)" by (rule op_rel_valid_rng)
  obtain w4 where w4: "(if state (persons w3 ! i) = INFECTED \<and> truthy (infected_start (persons w3 ! i))
            then handle_infection w3 i nears else Inr w3) = Inr w4" and o4: "op_rel strict i w3 w4"
    using op_handle_infection [OF rng3, of i nears] op_rel_refl [of strict i w3]
    by (cases "state (persons w3 ! i) = INFECTED \<and> truthy (infected_start (persons w3 ! i))") auto
  obtain w5 where w5: "(if distancing_toggle \<and> distancing (persons w4 ! i) \<and> nears \<noteq> []
            then social_distance w4 i nears else Inr w4) = Inr w5" and m5: "motion_rel i w4 w5"
    using motion_social_distance [of w4 i nears] motion_rel_refl [of i w4]
    by (cases "distancing_toggle \<and> distancing (persons w4 ! i) \<and> nears \<noteq> []") auto
  have m6: "motion_rel i w5 (move_person w5 i frametime)"
    by (rule motion_move_person)
  have "op_rel strict i w (move_person w5 i frametime)"
    using o3 o4 m5 m6 by (blast intro: op_rel_trans motion_imp_op)
  moreover have "operate w i frametime distancing_toggle
      = Inr (stay_in_bounds (move_person w5 i frametime) i)"
    unfolding operate_def Let_def w3_def [symmetric] nears_def [symmetric]
    by (simp only: w4 w5 bind_result_def sum.case)
  ultimately show ?thesis by blast
qed

lemma op_operate:
  assumes "strict \<longrightarrow> valid_rng (random_stream w)"
  shows "\<exists>w'. operate w i frametime distancing_toggle = Inr w' \<and> op_rel strict i w w'"
proof -
  obtain w6 where "operate w i frametime distancing_toggle = Inr (stay_in_bounds w6 i)"
    and "op_rel strict i w w6"
    using operate_shape [OF assms] by blast
  moreover have "op_rel strict i w6 (stay_in_bounds w6 i)"
    by (rule motion_imp_op [OF motion_stay_in_bounds])
  ultimately show ?thesis by (blast intro: op_rel_trans)
qed

subsection \<open>Containment\<close>

lemma rect_center_set_center:
  "rect_center (set_rect (Rect_set_center c (Person_rect p)) p) = c"
  by (simp add: rect_center_def set_rect_def Rect_set_center_def Person_rect_def Rect_center_def)

lemma in_bounds_cong:
  assumes "communities w' = communities w" and "regions w' = regions w"
    and "bounds_community p' = bounds_community p" and "bounds_region p' = bounds_region p"
    and "rect_topleft p' = rect_topleft p"
  shows "in_bounds w' p' = in_bounds w p"
  using assms
  by (simp add: in_bounds_def active_bounds_def bounds_left_def bounds_right_def bounds_top_def
      bounds_bottom_def rect_center_def Person_rect_def)

lemma roomy_cong:
  assumes "communities w' = communities w" and "regions w' = regions w"
    and "bounds_community p' = bounds_community p" and "bounds_region p' = bounds_region p"
  shows "roomy w' p' = roomy w p"
  using assms
  by (simp add: roomy_def active_bounds_def bounds_left_def bounds_right_def bounds_top_def
      bounds_bottom_def)

lemma stay_in_bounds_contains:
  assumes "i < length (persons w)" and "roomy w (persons w ! i)"
  shows "in_bounds (stay_in_bounds w i) (persons (stay_in_bounds w i) ! i)"
proof -
  let ?p = "persons w ! i"
  let ?b = "active_bounds w ?p"
  let ?c = "(clamp (fst (rect_center ?p)) (bounds_left w ?b + radius) (bounds_right w ?b - radius),
             clamp (snd (rect_center ?p)) (bounds_top w ?b + radius) (bounds_bottom w ?b - radius))"
  let ?p' = "set_rect (Rect_set_center ?c (Person_rect ?p)) ?p"
  have p': "persons (stay_in_bounds w i) ! i = ?p'"
    using assms(1) by (simp add: stay_in_bounds_def Let_def upd_person_def)
  have tabs: "communities (stay_in_bounds w i) = communities w" "regions (stay_in_bounds w i) = regions w"
    by (simp_all add: stay_in_bounds_def Let_def upd_person_def)
  have b: "active_bounds (stay_in_bounds w i) ?p' = ?b"
    by (simp add: active_bounds_def tabs set_rect_def)
  have edges: "bounds_left (stay_in_bounds w i) = bounds_left w" "bounds_right (stay_in_bounds w i) = bounds_right w"
    "bounds_top (stay_in_bounds w i) = bounds_top w" "bounds_bottom (stay_in_bounds w i) = bounds_bottom w"
    by (simp_all add: fun_eq_iff bounds_left_def bounds_right_def bounds_top_def bounds_bottom_def tabs
        split: bounds_ref.splits)
  from assms(2) show ?thesis
    unfolding p' in_bounds_def Let_def b edges rect_center_set_center roomy_def
    by (simp add: clamp_def)
qed

subsection \<open>One update of one person\<close>

lemma travel_shape:
  assumes "travel_target (persons w ! i) = Some t"
  shows "\<exists>p'. travel w i frametime = Inr (upd_person i (\<lambda>_. p') w)
      \<and> p'\<lparr>direction := d0, rect_topleft := r0, bounds_community := c0, travel_target := t0\<rparr>
        = (persons w ! i)\<lparr>direction := d0, rect_topleft := r0, bounds_community := c0, travel_target := t0\<rparr>"
proof -
  let ?p = "persons w ! i"
  let ?hub = "absolute_center_rect (communities w t)"
  let ?to = "vec_neg (vec_sub (Vector2_of (rect_center ?p)) (Vector2_of (Rect_center ?hub)))"
  have "\<exists>d. (if vec_bool ?to \<and> vec_length ?to \<noteq> 0
              then vec_normalize ?to else Inr (direction ?p)) = Inr d"
    by (simp add: vec_normalize_def)
  then obtain d where d: "(if vec_bool ?to \<and> vec_length ?to \<noteq> 0
                      then vec_normalize ?to else Inr (direction ?p)) = Inr d" ..
  let ?p1 = "set_rect (move_ip (fst d * speed * TRAVEL_SPEED_MULTIPLIER * frametime)
                               (snd d * speed * TRAVEL_SPEED_MULTIPLIER * frametime)
                               (Person_rect ?p)) (?p\<lparr>direction := d\<rparr>)"
  let ?p2 = "if collidepoint ?hub (rect_center ?p1)
             then ?p1\<lparr>bounds_community := t, travel_target := None\<rparr> else ?p1"
  have "travel w i frametime = Inr (upd_person i (\<lambda>_. ?p2) w)"
    unfolding travel_def Let_def assms option.case d bind_result_def sum.case ..
  moreover have "?p2\<lparr>direction := d0, rect_topleft := r0, bounds_community := c0, travel_target := t0\<rparr>
        = ?p\<lparr>direction := d0, rect_topleft := r0, bounds_community := c0, travel_target := t0\<rparr>"
    by (simp add: set_rect_def)
  ultimately show ?thesis by blast
qed

lemma upd_rel_upd_person: "upd_rel strict i w (upd_person i f w)"
  by (simp add: upd_rel_def same_tables_def upd_person_def other_state_ok_refl)

lemma Person_update_step:
  assumes "strict \<longrightarrow> valid_rng (random_stream w)"
  shows "\<exists>w'. Person_update w i frametime distancing_toggle = Inr w' \<and> upd_rel strict i w w'"
proof -
  consider (dead) "state (persons w ! i) = DECEASED"
    | (travel) t where "state (persons w ! i) \<noteq> DECEASED" "travel_target (persons w ! i) = Some t"
    | (operate) "state (persons w ! i) \<noteq> DECEASED" "travel_target (persons w ! i) = None"
    by (cases "travel_target (persons w ! i)") auto
  then show ?thesis
  proof cases
    case dead
    have "upd_rel strict i w w"
      by (simp add: upd_rel_def same_tables_refl other_state_ok_refl)
    with dead show ?thesis by (simp add: Person_update_def)
  next
    case travel
    from travel_shape [OF travel(2)] obtain p'
      where "travel w i frametime = Inr (upd_person i (\<lambda>_. p') w)" by blast
    with travel upd_rel_upd_person show ?thesis by (simp add: Person_update_def)
  next
    case operate
    from op_operate [OF assms] obtain w'
      where "operate w i frametime distancing_toggle = Inr w'" "op_rel strict i w w'" by blast
    with operate show ?thesis by (simp add: Person_update_def op_imp_upd)
  qed
qed

lemma Person_update_contains:
  assumes "i < length (persons w)" and "state (persons w ! i) \<noteq> DECEASED"
    and "travel_target (persons w ! i) = None" and "roomy w (persons w ! i)"
  shows "\<exists>w'. Person_update w i frametime distancing_toggle = Inr w'
            \<and> in_bounds w' (persons w' ! i)"
proof -
  obtain w6 where op: "operate w i frametime distancing_toggle = Inr (stay_in_bounds w6 i)"
    and rel: "op_rel False i w w6"
    using operate_shape [of False w i frametime distancing_toggle] by auto
  from rel have t: "same_tables w w6" by (simp add: op_rel_def)
  from rel have b: "bounds_community (persons w6 ! i) = bounds_community (persons w ! i)"
    "bounds_region (persons w6 ! i) = bounds_region (persons w ! i)"
    by (simp_all add: op_rel_def)
  from t have len: "i < length (persons w6)"
    using assms(1) by (simp add: same_tables_def)
  have "roomy w6 (persons w6 ! i) = roomy w (persons w ! i)"
    using t b by (intro roomy_cong) (simp_all add: same_tables_def)
  with assms(4) have "in_bounds (stay_in_bounds w6 i) (persons (stay_in_bounds w6 i) ! i)"
    using len by (intro stay_in_bounds_contains) simp_all
  with op assms(2,3) show ?thesis by (simp add: Person_update_def)
qed

subsection \<open>One pass over the population\<close>

lemma update_each_total:
  "\<exists>w'. update_each js frametime distancing_toggle w = Inr w' \<and> same_tables w w'"
proof (induction js arbitrary: w)
  case Nil
  then show ?case by (simp add: same_tables_refl)
next
  case (Cons j js)
  obtain w1 where 1: "Person_update w j frametime distancing_toggle = Inr w1"
    and r: "upd_rel False j w w1"
    using Person_update_step [of False w j] by auto
  from Cons [of w1] obtain w' where "update_each js frametime distancing_toggle w1 = Inr w'"
    and "same_tables w1 w'" by blast
  with 1 r show ?case
    by (auto simp: bind_result_def upd_rel_def intro: same_tables_trans)
qed

lemma update_each_deceased:
  assumes "valid_rng (random_stream w)" and "state (persons w ! k) = DECEASED"
    and "update_each js frametime distancing_toggle w = Inr w'"
  shows "state (persons w' ! k) = DECEASED \<and> rect_topleft (persons w' ! k) = rect_topleft (persons w ! k)"
  using assms
proof (induction js arbitrary: w)
  case Nil
  then show ?case by simp
next
  case (Cons j js)
  obtain w1 where 1: "Person_update w j frametime distancing_toggle = Inr w1"
    and r: "upd_rel True j w w1"
    using Person_update_step [of True w j] Cons.prems(1) by auto
  have rng1: "valid_rng (random_stream w1)"
    using r Cons.prems(1) by (simp add: upd_rel_def same_tables_def)
  have k1: "state (persons w1 ! k) = DECEASED \<and> rect_topleft (persons w1 ! k) = rect_topleft (persons w ! k)"
  proof (cases "j = k")
    case True
    with Cons.prems(2) 1 show ?thesis by (simp add: Person_update_def)
  next
    case False
    with r Cons.prems(2) show ?thesis
      by (auto simp: upd_rel_def other_state_ok_def)
  qed
  from Cons.prems(3) 1 have "update_each js frametime distancing_toggle w1 = Inr w'"
    by (simp add: bind_result_def)
  with Cons.IH [OF rng1] k1 show ?case by simp
qed

lemma update_each_keeps_in_bounds:
  assumes "k \<notin> set js" and "in_bounds w (persons w ! k)"
    and "update_each js frametime distancing_toggle w = Inr w'"
  shows "in_bounds w' (persons w' ! k)"
  using assms
proof (induction js arbitrary: w)
  case Nil
  then show ?case by simp
next
  case (Cons j js)
  obtain w1 where 1: "Person_update w j frametime distancing_toggle = Inr w1"
    and r: "upd_rel False j w w1"
    using Person_update_step [of False w j] by auto
  from Cons.prems(1) have jk: "k \<noteq> j" by auto
  have "in_bounds w1 (persons w1 ! k) = in_bounds w (persons w ! k)"
    using r jk by (intro in_bounds_cong) (simp_all add: upd_rel_def same_tables_def)
  with Cons.prems(2) have i1: "in_bounds w1 (persons w1 ! k)" by simp
  from Cons.prems(3) 1 have "update_each js frametime distancing_toggle w1 = Inr w'"
    by (simp add: bind_result_def)
  with Cons.IH [OF _ i1] Cons.prems(1) show ?case by simp
qed

lemma update_each_contains:
  assumes "distinct js" and "k \<in> set js" and "set js \<subseteq> {..<length (persons w)}"
    and "state (persons w ! k) \<noteq> DECEASED" and "travel_target (persons w ! k) = None"
    and "roomy w (persons w ! k)"
    and "update_each js frametime distancing_toggle w = Inr w'"
  shows "in_bounds w' (persons w' ! k)"
  using assms
proof (induction js arbitrary: w)
  case Nil
  then show ?case by simp
next
  case (Cons j js)
  show ?case
  proof (cases "j = k")
    case True
    from Cons.prems(3) True have "k < length (persons w)" by simp
    from Person_update_contains [OF this Cons.prems(4,5,6)] obtain w1
      where 1: "Person_update w k frametime distancing_toggle = Inr w1"
        and i1: "in_bounds w1 (persons w1 ! k)" by blast
    from Cons.prems(7) 1 True have 2: "update_each js frametime distancing_toggle w1 = Inr w'"
      by (simp add: bind_result_def)
    from Cons.prems(1) True have "k \<notin> set js" by simp
    from update_each_keeps_in_bounds [OF this i1 2] show ?thesis .
  next
    case False
    obtain w1 where 1: "Person_update w j frametime distancing_toggle = Inr w1"
      and r: "upd_rel False j w w1"
      using Person_update_step [of False w j] by auto
    from Cons.prems(7) 1 have 2: "update_each js frametime distancing_toggle w1 = Inr w'"
      by (simp add: bind_result_def)
    from r False have same: "bounds_community (persons w1 ! k) = bounds_community (persons w ! k)"
      "bounds_region (persons w1 ! k) = bounds_region (persons w ! k)"
      "travel_target (persons w1 ! k) = travel_target (persons w ! k)"
      "other_state_ok False (state (persons w ! k)) (state (persons w1 ! k))"
      and t: "same_tables w w1"
      by (simp_all add: upd_rel_def)
    have "roomy w1 (persons w1 ! k) = roomy w (persons w ! k)"
      using t same by (intro roomy_cong) (simp_all add: same_tables_def)
    with Cons.prems(6) have r1: "roomy w1 (persons w1 ! k)" by simp
    from same(4) Cons.prems(4) have s1: "state (persons w1 ! k) \<noteq> DECEASED"
      by (auto simp: other_state_ok_def)
    from same(3) Cons.prems(5) have t1: "travel_target (persons w1 ! k) = None" by simp
    from Cons.prems(3) t have sub: "set js \<subseteq> {..<length (persons w1)}"
      by (simp add: same_tables_def)
    from Cons.prems(1,2) False have "distinct js" "k \<in> set js" by auto
    from Cons.IH [OF this sub s1 t1 r1 2] show ?thesis .
  qed
qed

subsection \<open>Containment in the active bounds\<close>

lemma example_edges:
  "Region_left (example_community 0) = 2" "Region_right (example_community 0) = 400"
  "Region_top (example_community 0) = 2" "Region_bottom (example_community 0) = 400"
  by (simp_all add: example_community_def Community_init_def Region_left_def Region_right_def
      Region_top_def Region_bottom_def py_int_def Let_def)

lemma example_hub:
  "absolute_center_rect (example_community (Suc 0)) = \<lparr>rx = 685, ry = 185, rw = 30, rh = 30\<rparr>"
  by (simp add: example_community_def Community_init_def Region_left_def Region_top_def
      py_int_def Let_def center_size_def)

lemma example_active: "active (example_community k)"
  by (simp add: example_community_def Community_init_def Let_def)

lemma example_center: "rect_center (example_person c s) = c"
  by (simp add: rect_center_def Rect_center_def Person_rect_def example_person_def surf_size_def radius_def)

lemma example_in_bounds:
  "in_bounds (example_world ps u) (example_person c s)
     = (7 \<le> fst c \<and> fst c \<le> 395 \<and> 7 \<le> snd c \<and> snd c \<le> 395)"
  by (simp add: in_bounds_def active_bounds_def example_world_def example_active bounds_left_def
      bounds_right_def bounds_top_def bounds_bottom_def example_edges example_center radius_def)
     (simp add: example_person_def example_edges)

lemma traveller_center: "rect_center (traveller c s t) = c"
  by (simp add: rect_center_def Rect_center_def Person_rect_def example_person_def traveller_def
      surf_size_def radius_def)

lemma W1_travel: "travel W1 0 (8 / 1000) = Inr W1_after"
  by (simp add: travel_def W1_def W1_after_def example_world_def traveller_def example_person_def
      Let_def rect_center_def example_hub Rect_center_def vec_neg_def vec_sub_def Vector2_of_def
      vec_bool_def vec_length_x vec_normalize_def bind_result_def speed_def
      TRAVEL_SPEED_MULTIPLIER_def move_ip_def py_int_def Person_rect_def set_rect_def
      collidepoint_def upd_person_def surf_size_def radius_def)

text \<open>
  C1, as stated, fails in a tick spent mid-travel: a person inside the inset box of its
  community, on its way to community 1, is outside that box after one pass of 8 ms.
\<close>

theorem C1_travelling_person_leaves_bounds:
  "persons_update W1 (8 / 1000) False = Inr W1_after
   \<and> in_bounds W1 (persons W1 ! 0) \<and> \<not> in_bounds W1_after (persons W1_after ! 0)"
proof -
  have "persons_update W1 (8 / 1000) False = Person_update W1 0 (8 / 1000) False"
    by (simp add: persons_update_def bind_result_def W1_def example_world_def split: sum.splits)
  also have "\<dots> = travel W1 0 (8 / 1000)"
    by (simp add: Person_update_def W1_def example_world_def traveller_def example_person_def)
  finally have "persons_update W1 (8 / 1000) False = Inr W1_after"
    using W1_travel by simp
  moreover have "in_bounds W1 (persons W1 ! 0)" "\<not> in_bounds W1_after (persons W1_after ! 0)"
    by (simp_all add: W1_def W1_after_def in_bounds_def active_bounds_def example_world_def
        example_active bounds_left_def bounds_right_def bounds_top_def bounds_bottom_def
        example_edges traveller_center radius_def)
       (simp_all add: traveller_def example_person_def example_edges)
  ultimately show ?thesis by simp
qed

text \<open>
  C1, as the code has it. In one pass of \<open>persons.update\<close>, every person that is alive
  and not travelling, and whose active bounds leave room for the inset box, ends with its
  center in that box. (A travelling person is moved without being clamped, and a DECEASED
  person is not touched.)
\<close>

theorem C1_operating_person_stays_in_bounds:
  assumes "k < length (persons w)" and "state (persons w ! k) \<noteq> DECEASED"
    and "travel_target (persons w ! k) = None" and "roomy w (persons w ! k)"
  shows "\<exists>w'. persons_update w frametime distancing_toggle = Inr w' \<and> in_bounds w' (persons w' ! k)"
proof -
  obtain w' where w': "update_each [0..<length (persons w)] frametime distancing_toggle w = Inr w'"
    using update_each_total by blast
  have "in_bounds w' (persons w' ! k)"
    using assms w' by (intro update_each_contains [where js = "[0..<length (persons w)]" and w = w]) auto
  with w' show ?thesis by (simp add: persons_update_def)
qed

theorem C1_operating_person_stays_in_bounds_witness:
  "(0::nat) < length (persons W9) \<and> state (persons W9 ! 0) \<noteq> DECEASED
   \<and> travel_target (persons W9 ! 0) = None \<and> roomy W9 (persons W9 ! 0)
   \<and> (\<exists>w'. persons_update W9 (8 / 1000) True = Inr w' \<and> in_bounds w' (persons w' ! 0))"
proof -
  have h: "(0::nat) < length (persons W9)" "state (persons W9 ! 0) \<noteq> DECEASED"
    "travel_target (persons W9 ! 0) = None"
    by (simp_all add: W9_def example_world_def example_person_def)
  have r: "roomy W9 (persons W9 ! 0)"
    by (simp add: roomy_def W9_def active_bounds_def example_world_def example_active bounds_left_def
        bounds_right_def bounds_top_def bounds_bottom_def radius_def)
       (simp add: example_person_def example_edges)
  from C1_operating_person_stays_in_bounds [OF h r] h r show ?thesis by simp
qed

subsection \<open>The handlers of main.py\<close>

lemma random_index_lt:
  assumes "valid_rng (random_stream w)" and "0 < n"
  shows "fst (random_index n w) < n"
proof -
  let ?u = "random_stream w (random_calls w)"
  from assms(1) have u: "0 \<le> ?u" "?u < 1" by (simp_all add: valid_rng_def)
  with assms(2) have "?u * of_nat n < of_nat n" by simp
  then have "\<lfloor>?u * of_nat n\<rfloor> < int n" by (simp add: floor_less_iff)
  moreover from u have "0 \<le> \<lfloor>?u * of_nat n\<rfloor>" by simp
  ultimately have "nat \<lfloor>?u * of_nat n\<rfloor> < n" by linarith
  then show ?thesis by (simp add: random_index_def random_random_def)
qed

lemma snd_random_index: "snd (random_index n w) = w\<lparr>random_calls := Suc (random_calls w)\<rparr>"
  by (simp add: random_index_def random_random_def)

lemma get_infected_fields:
  "rect_topleft (persons (get_infected w j) ! k) = rect_topleft (persons w ! k)
   \<and> (state (persons (get_infected w j) ! k) = state (persons w ! k)
      \<or> (k = j \<and> state (persons (get_infected w j) ! k) = INFECTED))"
proof (cases "j < length (persons w)")
  case True
  then show ?thesis
    by (simp add: get_infected_def perf_counter_def random_random_def upd_person_def nth_list_update)
next
  case False
  then show ?thesis
    by (simp add: get_infected_def perf_counter_def random_random_def upd_person_def list_update_beyond)
qed

lemma INFECT_ONE_PERSON_result:
  assumes "valid_rng (random_stream w)" and "INFECT_ONE_PERSON w = Inr w'"
  shows "\<exists>j \<in> set (infectible w). w' = get_infected (w\<lparr>random_calls := Suc (random_calls w)\<rparr>) j"
proof -
  from assms(2) have ne: "infectible w \<noteq> []"
    by (auto simp: INFECT_ONE_PERSON_def random_choice_def bind_result_def)
  let ?k = "fst (random_index (length (infectible w)) w)"
  from ne have "?k < length (infectible w)"
    using random_index_lt [OF assms(1)] by simp
  then have "infectible w ! ?k \<in> set (infectible w)" by simp
  moreover from assms(2) ne
  have "w' = get_infected (w\<lparr>random_calls := Suc (random_calls w)\<rparr>) (infectible w ! ?k)"
    by (simp add: INFECT_ONE_PERSON_def random_choice_def bind_result_def split_beta Let_def
        snd_random_index)
  ultimately show ?thesis by blast
qed

lemma infectible_state: "j \<in> set (infectible w) \<Longrightarrow> state (persons w ! j) \<in> {SUSCEPTIBLE, RECOVERED}"
  by (auto simp: infectible_def)

lemma INFECT_ONE_PERSON_fields:
  assumes "valid_rng (random_stream w)" and "INFECT_ONE_PERSON w = Inr w'"
  shows "rect_topleft (persons w' ! k) = rect_topleft (persons w ! k)
       \<and> (state (persons w' ! k) = state (persons w ! k)
          \<or> (state (persons w ! k) \<in> {SUSCEPTIBLE, RECOVERED} \<and> state (persons w' ! k) = INFECTED))"
proof -
  let ?w1 = "w\<lparr>random_calls := Suc (random_calls w)\<rparr>"
  from INFECT_ONE_PERSON_result [OF assms] obtain j
    where j: "j \<in> set (infectible w)" and w': "w' = get_infected ?w1 j" by blast
  from infectible_state [OF j] get_infected_fields [of ?w1 j k] show ?thesis
    unfolding w' by auto
qed

lemma sample_loop_world: "snd (sample_loop n pool w) = w\<lparr>random_calls := random_calls w + n\<rparr>"
proof (induction n arbitrary: pool w)
  case 0
  then show ?case by simp
next
  case (Suc n)
  show ?case
    by (simp add: split_beta Let_def snd_random_index Suc)
qed

lemma set_distancing_each_persons:
  "length (persons (set_distancing_each js flag w)) = length (persons w)
   \<and> persons (set_distancing_each js flag w) ! k
     = (persons w ! k)\<lparr>distancing := (if k \<in> set js \<and> k < length (persons w) then flag
                                         else distancing (persons w ! k))\<rparr>"
proof (induction js arbitrary: w)
  case Nil
  then show ?case by simp
next
  case (Cons j js)
  let ?w1 = "upd_person j (\<lambda>p. p\<lparr>distancing := flag\<rparr>) w"
  have len: "length (persons ?w1) = length (persons w)" by (simp add: upd_person_def)
  have k: "persons ?w1 ! k = (persons w ! k)\<lparr>distancing := (if k = j \<and> k < length (persons w) then flag
                                         else distancing (persons w ! k))\<rparr>"
    by (cases "j < length (persons w)") (auto simp: upd_person_def nth_list_update list_update_beyond)
  have ih: "length (persons (set_distancing_each js flag ?w1)) = length (persons ?w1)"
    "persons (set_distancing_each js flag ?w1) ! k
     = (persons ?w1 ! k)\<lparr>distancing := (if k \<in> set js \<and> k < length (persons ?w1) then flag
                                         else distancing (persons ?w1 ! k))\<rparr>"
    using Cons [of ?w1] by blast+
  show ?case
    unfolding set_distancing_each.simps ih len k by auto
qed

lemma set_distancing_each_tables:
  "random_stream (set_distancing_each js flag w) = random_stream w
   \<and> distancing_percent (set_distancing_each js flag w) = distancing_percent w"
  by (induction js arbitrary: w) (simp_all add: upd_person_def)

lemma ADJUST_DISTANCING_PERCENT_fields:
  assumes "ADJUST_DISTANCING_PERCENT w = Inr w'"
  shows "state (persons w' ! k) = state (persons w ! k)
       \<and> rect_topleft (persons w' ! k) = rect_topleft (persons w ! k)"
proof (cases "distancing_target w - int (length (distancers w)) = 0")
  case True
  with assms show ?thesis
    by (auto simp: ADJUST_DISTANCING_PERCENT_def Let_def bind_result_def)
next
  case False
  define pool where "pool = (if 0 < distancing_target w - int (length (distancers w))
      then non_distancers w else distancers w)"
  define flag where "flag \<longleftrightarrow> 0 < distancing_target w - int (length (distancers w))"
  define n where "n = nat \<bar>distancing_target w - int (length (distancers w))\<bar>"
  from assms False
  have "w' = (let w2 = set_distancing_each (fst (sample_loop n pool w)) flag (snd (sample_loop n pool w))
              in w2\<lparr>distancing_percent := resolve_diff (distancing_percent w2)\<rparr>)"
    by (auto simp: ADJUST_DISTANCING_PERCENT_def Let_def bind_result_def random_sample_def
        pool_def flag_def n_def split_beta split: if_splits)
  then show ?thesis
    using set_distancing_each_persons [of "fst (sample_loop n pool w)" flag "snd (sample_loop n pool w)" k]
    by (simp add: Let_def sample_loop_world)
qed

subsection \<open>The states of the infection\<close>

lemma rect_center_cong: "rect_topleft p' = rect_topleft p \<Longrightarrow> rect_center p' = rect_center p"
  by (simp add: rect_center_def Person_rect_def)



lemma valid_rng_example: "valid_rng (random_stream (example_world ps u)) = (0 \<le> u \<and> u < 1)"
  by (simp add: valid_rng_def example_world_def)

lemma upd_rel_other:
  assumes "upd_rel strict i w w'" and "k \<noteq> i"
  shows "rect_topleft (persons w' ! k) = rect_topleft (persons w ! k)
       \<and> other_state_ok strict (state (persons w ! k)) (state (persons w' ! k))"
  using assms unfolding upd_rel_def by blast

lemma op_rel_other:
  assumes "op_rel strict i w w'" and "k \<noteq> i"
  shows "rect_topleft (persons w' ! k) = rect_topleft (persons w ! k)
       \<and> other_state_ok strict (state (persons w ! k)) (state (persons w' ! k))"
  using upd_rel_other [OF op_imp_upd [OF assms(1)] assms(2)] .

lemma spread_state:
  assumes "valid_rng (random_stream w)"
  shows "state (persons (spread w i nears) ! k) = state (persons w ! k)
       \<or> (state (persons w ! k) \<in> {SUSCEPTIBLE, RECOVERED} \<and> state (persons (spread w i nears) ! k) = INFECTED)"
proof (cases "k = i")
  case True
  then show ?thesis by (simp add: spread_def spread_loop_self)
next
  case False
  have "op_rel True i w (spread w i nears)"
    using assms by (intro op_spread) simp
  from op_rel_other [OF this False] show ?thesis
    by (auto simp: other_state_ok_def)
qed

lemma get_nearby_not_deceased: "state (persons w ! k) = DECEASED \<Longrightarrow> k \<notin> set (get_nearby w i)"
  by (simp add: get_nearby_def Let_def)

lemma persons_update_result:
  "\<exists>w'. persons_update w frametime distancing_toggle = Inr w'"
  using update_each_total unfolding persons_update_def by blast

lemma persons_updates_deceased:
  assumes "valid_rng (random_stream w)" and "state (persons w ! k) = DECEASED"
  shows "\<exists>w'. persons_updates frames w = Inr w' \<and> state (persons w' ! k) = DECEASED
            \<and> rect_topleft (persons w' ! k) = rect_topleft (persons w ! k)"
  using assms
proof (induction frames arbitrary: w)
  case Nil
  then show ?case by simp
next
  case (Cons f frames)
  obtain frametime distancing_toggle where f: "f = (frametime, distancing_toggle)"
    by (cases f)
  obtain w1 where w1: "update_each [0..<length (persons w)] frametime distancing_toggle w = Inr w1"
    and t: "same_tables w w1"
    using update_each_total by blast
  from update_each_deceased [OF Cons.prems w1]
  have k1: "state (persons w1 ! k) = DECEASED" "rect_topleft (persons w1 ! k) = rect_topleft (persons w ! k)"
    by simp_all
  from t Cons.prems(1) have rng1: "valid_rng (random_stream w1)"
    by (simp add: same_tables_def)
  from Cons.IH [OF rng1 k1(1)] obtain w'
    where "persons_updates frames w1 = Inr w'" "state (persons w' ! k) = DECEASED"
      "rect_topleft (persons w' ! k) = rect_topleft (persons w1 ! k)" by blast
  with w1 k1 show ?case
    by (simp add: f persons_update_def bind_result_def)
qed

text \<open>
  A person that is DECEASED when a pass of \<open>persons.update\<close> begins: the pass, and any
  number of passes after it, leave its state and its position as they are; its own update does
  nothing at all; it is in nobody's list of neighbours; \<open>spread\<close> does not change its state; and the handlers that infect one person
  and rebalance the distancing leave its state and position alone.
\<close>

lemma deceased_at_start_is_kept:
  assumes "valid_rng (random_stream w)" and "k < length (persons w)"
    and "state (persons w ! k) = DECEASED"
  shows "(\<exists>w'. persons_update w frametime distancing_toggle = Inr w'
              \<and> state (persons w' ! k) = DECEASED
              \<and> rect_center (persons w' ! k) = rect_center (persons w ! k))
       \<and> (\<exists>w'. persons_updates frames w = Inr w'
              \<and> state (persons w' ! k) = DECEASED
              \<and> rect_center (persons w' ! k) = rect_center (persons w ! k))
       \<and> Person_update w k frametime distancing_toggle = Inr w
       \<and> k \<notin> set (get_nearby w i)
       \<and> state (persons (spread w i nears) ! k) = DECEASED
       \<and> (\<forall>w'. INFECT_ONE_PERSON w = Inr w' \<longrightarrow>
              state (persons w' ! k) = DECEASED
            \<and> rect_center (persons w' ! k) = rect_center (persons w ! k))
       \<and> (\<forall>w'. ADJUST_DISTANCING_PERCENT w = Inr w' \<longrightarrow>
              state (persons w' ! k) = DECEASED
            \<and> rect_center (persons w' ! k) = rect_center (persons w ! k))"
proof -
  obtain w' where w': "persons_update w frametime distancing_toggle = Inr w'"
    using persons_update_result by blast
  then have "state (persons w' ! k) = DECEASED \<and> rect_topleft (persons w' ! k) = rect_topleft (persons w ! k)"
    using update_each_deceased [OF assms(1,3)] by (simp add: persons_update_def)
  with w' have a: "\<exists>w'. persons_update w frametime distancing_toggle = Inr w'
              \<and> state (persons w' ! k) = DECEASED
              \<and> rect_center (persons w' ! k) = rect_center (persons w ! k)"
    by (auto intro: rect_center_cong)
  have a': "\<exists>w'. persons_updates frames w = Inr w'
              \<and> state (persons w' ! k) = DECEASED
              \<and> rect_center (persons w' ! k) = rect_center (persons w ! k)"
    using persons_updates_deceased [OF assms(1,3), of frames]
    by (auto intro: rect_center_cong)
  have b: "Person_update w k frametime distancing_toggle = Inr w"
    using assms(3) by (simp add: Person_update_def)
  have c: "k \<notin> set (get_nearby w i)"
    using assms(3) by (rule get_nearby_not_deceased)
  have d: "state (persons (spread w i nears) ! k) = DECEASED"
    using spread_state [OF assms(1), of i nears k] assms(3) by auto
  have e: "state (persons w' ! k) = DECEASED \<and> rect_center (persons w' ! k) = rect_center (persons w ! k)"
    if "INFECT_ONE_PERSON w = Inr w'" for w'
    using INFECT_ONE_PERSON_fields [OF assms(1) that, of k] assms(3)
    by (auto intro: rect_center_cong)
  have f: "state (persons w' ! k) = DECEASED \<and> rect_center (persons w' ! k) = rect_center (persons w ! k)"
    if "ADJUST_DISTANCING_PERCENT w = Inr w'" for w'
    using ADJUST_DISTANCING_PERCENT_fields [OF that, of k] assms(3)
    by (auto intro: rect_center_cong)
  from a a' b c d e f show ?thesis by blast
qed

lemma deceased_at_start_is_kept_example:
  "valid_rng (random_stream W2) \<and> (0::nat) < length (persons W2)
   \<and> state (persons W2 ! 0) = DECEASED
   \<and> (\<exists>w'. persons_update W2 (8 / 1000) True = Inr w'
           \<and> state (persons w' ! 0) = DECEASED
           \<and> rect_center (persons w' ! 0) = rect_center (persons W2 ! 0))
   \<and> (\<exists>w'. persons_updates [(8 / 1000, True), (9 / 1000, False)] W2 = Inr w'
           \<and> state (persons w' ! 0) = DECEASED
           \<and> rect_center (persons w' ! 0) = rect_center (persons W2 ! 0))
   \<and> Person_update W2 0 (8 / 1000) True = Inr W2
   \<and> 0 \<notin> set (get_nearby W2 (Suc 0))
   \<and> state (persons (spread W2 (Suc 0) [0, 2]) ! 0) = DECEASED"
proof -
  have h: "valid_rng (random_stream W2)" "(0::nat) < length (persons W2)"
    "state (persons W2 ! 0) = DECEASED"
    by (simp_all add: W2_def valid_rng_example) (simp_all add: example_world_def example_person_def)
  from deceased_at_start_is_kept [OF h, where frametime = "8 / 1000" and distancing_toggle = True
      and frames = "[(8 / 1000, True), (9 / 1000, False)]" and i = "Suc 0" and nears = "[0, 2]"] h
  show ?thesis by simp
qed




subsection \<open>An INFECTED person without a start time\<close>

lemma motion_rel_self:
  assumes "motion_rel i w w'"
  shows "persons w' ! i = (persons w ! i)\<lparr>direction := direction (persons w' ! i),
              rect_topleft := rect_topleft (persons w' ! i)\<rparr>"
  using assms unfolding motion_rel_def by (auto split: if_splits)

lemma motion_rel_self_fields:
  assumes "motion_rel i w w'"
  shows "state (persons w' ! i) = state (persons w ! i)"
    and "infected_start (persons w' ! i) = infected_start (persons w ! i)"
    and "distancing (persons w' ! i) = distancing (persons w ! i)"
  by (subst motion_rel_self [OF assms], simp)+

lemma operate_skips:
  assumes "\<not> (state (persons w ! i) = INFECTED \<and> truthy (infected_start (persons w ! i)))"
  shows "\<exists>w'. operate w i frametime distancing_toggle = Inr w' \<and> motion_rel i w w'"
proof -
  define w3 where "w3 = avoid_walls (wander w i) i"
  define nears where "nears = get_nearby w3 i"
  have m3: "motion_rel i w w3"
    unfolding w3_def by (rule motion_rel_trans [OF motion_wander motion_avoid_walls])
  have skip: "(state (persons w3 ! i) = INFECTED \<and> truthy (infected_start (persons w3 ! i))) = False"
    using assms by (simp add: motion_rel_self_fields [OF m3])
  obtain w5 where w5: "(if distancing_toggle \<and> distancing (persons w3 ! i) \<and> nears \<noteq> []
            then social_distance w3 i nears else Inr w3) = Inr w5" and m5: "motion_rel i w3 w5"
    using motion_social_distance [of w3 i nears] motion_rel_refl [of i w3]
    by (cases "distancing_toggle \<and> distancing (persons w3 ! i) \<and> nears \<noteq> []") auto
  have m6: "motion_rel i w5 (stay_in_bounds (move_person w5 i frametime) i)"
    by (rule motion_rel_trans [OF motion_move_person motion_stay_in_bounds])
  have "motion_rel i w (stay_in_bounds (move_person w5 i frametime) i)"
    using m3 m5 m6 by (blast intro: motion_rel_trans)
  moreover have "operate w i frametime distancing_toggle
      = Inr (stay_in_bounds (move_person w5 i frametime) i)"
    unfolding operate_def Let_def w3_def [symmetric] nears_def [symmetric]
    by (simp only: skip if_False w5 bind_result_def sum.case)
  ultimately show ?thesis by blast
qed

lemma W7_person: "persons W7 ! 0 = example_person (200, 200) INFECTED"
  by (simp add: W7_def example_world_def)

lemma W7_wander: "wander W7 0 = W7\<lparr>random_calls := Suc 0\<rparr>"
  by (simp add: wander_def random_random_def W7_def example_world_def)

lemma W7_avoid_walls: "avoid_walls (W7\<lparr>random_calls := Suc 0\<rparr>) 0 = W7\<lparr>random_calls := Suc 0\<rparr>"
proof -
  have c: "rect_center (persons (W7\<lparr>random_calls := Suc 0\<rparr>) ! 0) = (200, 200)"
    by (simp add: W7_person example_center)
  have b: "active_bounds (W7\<lparr>random_calls := Suc 0\<rparr>) (persons (W7\<lparr>random_calls := Suc 0\<rparr>) ! 0) = CommunityRef 0"
    by (simp add: active_bounds_def W7_def example_world_def example_active example_person_def)
  have e: "bounds_left (W7\<lparr>random_calls := Suc 0\<rparr>) (CommunityRef 0) = 2"
    "bounds_right (W7\<lparr>random_calls := Suc 0\<rparr>) (CommunityRef 0) = 400"
    "bounds_top (W7\<lparr>random_calls := Suc 0\<rparr>) (CommunityRef 0) = 2"
    "bounds_bottom (W7\<lparr>random_calls := Suc 0\<rparr>) (CommunityRef 0) = 400"
    by (simp_all add: bounds_left_def bounds_right_def bounds_top_def bounds_bottom_def W7_def
        example_world_def example_edges)
  show ?thesis
    unfolding avoid_walls_def Let_def c b e by simp
qed

lemma W7_move:
  "stay_in_bounds (move_person (W7\<lparr>random_calls := Suc 0\<rparr>) 0 (1 / 100)) 0 = W7_after"
proof -
  have m: "move_person (W7\<lparr>random_calls := Suc 0\<rparr>) 0 (1 / 100) = W7_after"
    by (simp add: move_person_def upd_person_def W7_def W7_after_def example_world_def
        example_person_def set_rect_def move_ip_def Person_rect_def py_int_def speed_def)
  have c: "rect_center (persons W7_after ! 0) = (201, 200)"
    by (simp add: W7_after_def example_world_def example_center)
  have b: "active_bounds W7_after (persons W7_after ! 0) = CommunityRef 0"
    by (simp add: active_bounds_def W7_after_def example_world_def example_active example_person_def)
  have e: "bounds_left W7_after (CommunityRef 0) = 2" "bounds_right W7_after (CommunityRef 0) = 400"
    "bounds_top W7_after (CommunityRef 0) = 2" "bounds_bottom W7_after (CommunityRef 0) = 400"
    by (simp_all add: bounds_left_def bounds_right_def bounds_top_def bounds_bottom_def W7_after_def
        example_world_def example_edges)
  have "stay_in_bounds W7_after 0 = W7_after"
    unfolding stay_in_bounds_def Let_def c b e
    by (simp add: clamp_def radius_def upd_person_def W7_after_def example_world_def
        example_person_def set_rect_def Rect_set_center_def Person_rect_def surf_size_def)
  then show ?thesis unfolding m .
qed

lemma W7_operate: "operate W7 0 (1 / 100) False = Inr W7_after"
proof -
  have s: "infected_start (persons (W7\<lparr>random_calls := Suc 0\<rparr>) ! 0) = None"
    by (simp add: W7_person example_person_def)
  show ?thesis
    unfolding operate_def Let_def W7_wander W7_avoid_walls s
    by (simp add: truthy_def bind_result_def W7_move)
qed

lemma W7_update: "Person_update W7 0 (1 / 100) False = Inr W7_after"
  by (simp add: Person_update_def W7_person example_person_def W7_operate)

text \<open>
  C7, as stated, fails: the update of a person that is INFECTED with no start time ends
  normally, and the person is still INFECTED with no start time.
\<close>

theorem C7_update_without_start_returns:
  "state (persons W7 ! 0) = INFECTED \<and> infected_start (persons W7 ! 0) = None
   \<and> Person_update W7 0 (1 / 100) False = Inr W7_after
   \<and> state (persons W7_after ! 0) = INFECTED \<and> infected_start (persons W7_after ! 0) = None"
  using W7_update
  by (simp add: W7_def W7_after_def example_world_def example_person_def)

text \<open>
  C7, as the code has it. \<open>handle_infection\<close> itself raises RuntimeError on a person
  without a start time, but \<open>update\<close> never calls it on such a person: the update of an
  INFECTED person without a start time returns normally and leaves the state and the
  start time as they are.
\<close>

theorem C7_unset_start_is_skipped:
  assumes "i < length (persons w)" and "state (persons w ! i) = INFECTED"
    and "\<not> truthy (infected_start (persons w ! i))"
  shows "handle_infection w i nears = Inl (RuntimeError ''Infection start time not found'')
       \<and> (\<exists>w'. Person_update w i frametime distancing_toggle = Inr w'
               \<and> state (persons w' ! i) = INFECTED
               \<and> infected_start (persons w' ! i) = infected_start (persons w ! i))"
proof -
  have a: "handle_infection w i nears = Inl (RuntimeError ''Infection start time not found'')"
    using assms(3) by (simp add: handle_infection_def)
  have b: "\<exists>w'. Person_update w i frametime distancing_toggle = Inr w'
               \<and> state (persons w' ! i) = INFECTED
               \<and> infected_start (persons w' ! i) = infected_start (persons w ! i)"
  proof (cases "travel_target (persons w ! i)")
    case None
    from operate_skips [of w i frametime distancing_toggle] assms(3) obtain w'
      where o: "operate w i frametime distancing_toggle = Inr w'" and m: "motion_rel i w w'"
      by blast
    from o None assms(2) have "Person_update w i frametime distancing_toggle = Inr w'"
      by (simp add: Person_update_def)
    with motion_rel_self_fields [OF m] assms(2) show ?thesis by simp
  next
    case (Some t)
    from travel_shape [OF Some] obtain p'
      where t: "travel w i frametime = Inr (upd_person i (\<lambda>_. p') w)"
        and p': "p'\<lparr>direction := (0, 0), rect_topleft := (0, 0), bounds_community := 0, travel_target := None\<rparr>
          = (persons w ! i)\<lparr>direction := (0, 0), rect_topleft := (0, 0), bounds_community := 0, travel_target := None\<rparr>"
      by blast
    from arg_cong [OF p', of state] arg_cong [OF p', of infected_start]
    have "state p' = state (persons w ! i)" "infected_start p' = infected_start (persons w ! i)"
      by simp_all
    moreover from t Some assms(2)
    have "Person_update w i frametime distancing_toggle = Inr (upd_person i (\<lambda>_. p') w)"
      by (simp add: Person_update_def)
    ultimately show ?thesis
      using assms(1,2) by (simp add: upd_person_def)
  qed
  from a b show ?thesis by blast
qed

theorem C7_unset_start_is_skipped_witness:
  "(0::nat) < length (persons W7) \<and> state (persons W7 ! 0) = INFECTED
   \<and> \<not> truthy (infected_start (persons W7 ! 0))
   \<and> handle_infection W7 0 [0] = Inl (RuntimeError ''Infection start time not found'')
   \<and> (\<exists>w'. Person_update W7 0 (1 / 100) False = Inr w'
           \<and> state (persons w' ! 0) = INFECTED
           \<and> infected_start (persons w' ! 0) = infected_start (persons W7 ! 0))"
proof -
  have h: "(0::nat) < length (persons W7)" "state (persons W7 ! 0) = INFECTED"
    "\<not> truthy (infected_start (persons W7 ! 0))"
    by (simp_all add: W7_def example_world_def example_person_def truthy_def)
  from C7_unset_start_is_skipped [OF h, of "[0]" "1 / 100" False] h show ?thesis by simp
qed

subsection \<open>Travel\<close>







subsection \<open>Rebalancing the distancing\<close>

lemma sample_loop_props:
  assumes "valid_rng (random_stream w)" and "n \<le> length pool" and "distinct pool"
  shows "distinct (fst (sample_loop n pool w)) \<and> set (fst (sample_loop n pool w)) \<subseteq> set pool
       \<and> length (fst (sample_loop n pool w)) = n"
  using assms
proof (induction n arbitrary: pool w)
  case 0
  then show ?case by simp
next
  case (Suc n)
  let ?idx = "fst (random_index (length pool) w)"
  let ?w1 = "snd (random_index (length pool) w)"
  let ?pool' = "take ?idx pool @ drop (Suc ?idx) pool"
  from Suc.prems(2) have pos: "0 < length pool" by auto
  have idx: "?idx < length pool"
    using random_index_lt [OF Suc.prems(1) pos] .
  have pool: "pool = take ?idx pool @ pool ! ?idx # drop (Suc ?idx) pool"
    using idx by (rule id_take_nth_drop)
  have "distinct (take ?idx pool @ pool ! ?idx # drop (Suc ?idx) pool)"
    by (subst pool [symmetric]) (rule Suc.prems(3))
  then have d': "distinct ?pool'" and notin: "pool ! ?idx \<notin> set ?pool'"
    by auto
  have sub: "set ?pool' \<subseteq> set pool"
    by (auto dest: in_set_takeD in_set_dropD)
  have len': "n \<le> length ?pool'"
    using Suc.prems(2) idx by simp
  have rng1: "valid_rng (random_stream ?w1)"
    using Suc.prems(1) by (simp add: snd_random_index)
  note ih = Suc.IH [OF rng1 len' d']
  have eq: "fst (sample_loop (Suc n) pool w) = pool ! ?idx # fst (sample_loop n ?pool' ?w1)"
    by (simp add: split_beta Let_def)
  from ih notin sub idx show ?case
    unfolding eq by auto
qed

lemma distancers_count:
  "length (distancers w) + length (non_distancers w) = length (persons w)"
  unfolding distancers_def non_distancers_def
  using sum_length_filter_compl [of "\<lambda>j. distancing (persons w ! j)" "[0..<length (persons w)]"]
  by simp

lemma distancers_after_set:
  assumes "persons w1 = persons w" and "distinct js"
    and "set js \<subseteq> set (if flag then non_distancers w else distancers w)"
  shows "int (length (distancers (set_distancing_each js flag w1)))
       = int (length (distancers w)) + (if flag then int (length js) else - int (length js))"
proof -
  let ?n = "length (persons w)"
  let ?P = "\<lambda>j. distancing (persons w ! j)"
  let ?w2 = "set_distancing_each js flag w1"
  have len: "length (persons ?w2) = ?n"
    using set_distancing_each_persons [of js flag w1] assms(1) by simp
  have at: "distancing (persons ?w2 ! k) = (if k \<in> set js \<and> k < ?n then flag else ?P k)" for k
    using set_distancing_each_persons [of js flag w1 k] assms(1) by simp
  have D: "length (distancers w) = card ({j. ?P j} \<inter> {..<?n})"
    unfolding distancers_def by (simp add: distinct_length_filter lessThan_atLeast0)
  have D2: "length (distancers ?w2) = card ({j. if j \<in> set js \<and> j < ?n then flag else ?P j} \<inter> {..<?n})"
    unfolding distancers_def len by (simp add: distinct_length_filter lessThan_atLeast0 at)
  have cjs: "card (set js) = length js"
    using assms(2) by (rule distinct_card)
  show ?thesis
  proof (cases flag)
    case True
    with assms(3) have sub: "set js \<subseteq> {j. \<not> ?P j} \<inter> {..<?n}"
      by (auto simp: non_distancers_def)
    have "{j. if j \<in> set js \<and> j < ?n then flag else ?P j} \<inter> {..<?n}
        = ({j. ?P j} \<inter> {..<?n}) \<union> set js"
      using True sub by auto
    moreover have "({j. ?P j} \<inter> {..<?n}) \<inter> set js = {}"
      using sub by auto
    ultimately have "card ({j. if j \<in> set js \<and> j < ?n then flag else ?P j} \<inter> {..<?n})
        = card ({j. ?P j} \<inter> {..<?n}) + card (set js)"
      by (simp add: card_Un_disjoint)
    with True D D2 cjs show ?thesis by simp
  next
    case False
    with assms(3) have sub: "set js \<subseteq> {j. ?P j} \<inter> {..<?n}"
      by (auto simp: distancers_def)
    have "{j. if j \<in> set js \<and> j < ?n then flag else ?P j} \<inter> {..<?n}
        = ({j. ?P j} \<inter> {..<?n}) - set js"
      using False sub by auto
    then have "card ({j. if j \<in> set js \<and> j < ?n then flag else ?P j} \<inter> {..<?n})
        = card ({j. ?P j} \<inter> {..<?n}) - card (set js)"
      using sub by (simp add: card_Diff_subset)
    moreover have "card (set js) \<le> card ({j. ?P j} \<inter> {..<?n})"
      using sub by (intro card_mono) simp_all
    ultimately show ?thesis
      using False D D2 cjs by simp
  qed
qed

lemma W5_lists: "distancers W5 = []" "non_distancers W5 = [0, Suc 0, 2]"
  by (simp_all add: distancers_def non_distancers_def W5_def example_world_def example_person_def
      upt_rec [of 0] upt_rec [of "Suc 0"] upt_rec [of 2] upt_rec [of 3])

lemma binary64_at:
  assumes "2 powr of_int e \<le> \<bar>x\<bar>" and "\<bar>x\<bar> < 2 powr (of_int e + 1)"
  shows "binary64 x = 2 powr (of_int e - 52) * of_int (py_round (x / 2 powr (of_int e - 52)))"
proof -
  have pos: "0 < \<bar>x\<bar>"
    using assms(1) by (smt (verit) powr_gt_zero)
  then have "\<lfloor>log 2 \<bar>x\<bar>\<rfloor> = e"
    using assms by (simp add: floor_log_eq_powr_iff)
  with pos show ?thesis
    by (simp add: binary64_def Let_def)
qed

lemma binary64_half: "binary64 (50 / 100) = 1 / 2"
  using binary64_at [of "- 1" "1 / 2"]
  by (simp add: powr_minus powr_numeral py_round_def Let_def field_simps)

lemma binary64_three_halves: "binary64 (1 / 2 * 3) = 3 / 2"
  using binary64_at [of 0 "3 / 2"]
  by (simp add: powr_minus powr_numeral py_round_def Let_def field_simps)

lemma binary64_29: "binary64 (29 / 100) = 5224175567749775 / 2 ^ 54"
  using binary64_at [of "- 2" "29 / 100"]
  by (simp add: powr_minus powr_numeral py_round_def Let_def field_simps)

lemma binary64_29_200: "binary64 (5224175567749775 / 2 ^ 54 * 200) = 8162774324609023 / 2 ^ 47"
  using binary64_at [of 5 "5224175567749775 / 2 ^ 54 * 200"]
  by (simp add: powr_minus powr_numeral py_round_def Let_def field_simps)

lemma W5_target: "distancing_target W5 = 1"
proof -
  have "distancing_target W5 = py_int (binary64 (binary64 (50 / 100) * 3))"
    by (simp add: distancing_target_def W5_def example_world_def)
  also have "\<dots> = 1"
    unfolding binary64_half binary64_three_halves by (simp add: py_int_def)
  finally show ?thesis .
qed


lemma py_round_nonneg: "0 \<le> r \<Longrightarrow> 0 \<le> py_round r"
  by (simp add: py_round_def Let_def)

lemma py_round_le:
  assumes "r \<le> of_int k"
  shows "py_round r \<le> k"
proof (cases "r = of_int \<lfloor>r\<rfloor>")
  case True
  then have "r - of_int \<lfloor>r\<rfloor> = 0" by simp
  then have "py_round r = \<lfloor>r\<rfloor>"
    unfolding py_round_def Let_def by simp
  with assms show ?thesis by (simp add: floor_le_iff)
next
  case False
  have "r \<noteq> of_int k"
  proof
    assume "r = of_int k"
    then have "r = of_int \<lfloor>r\<rfloor>" by simp
    with False show False by simp
  qed
  with assms have "r < of_int k" by simp
  then have "\<lfloor>r\<rfloor> < k" by (simp add: floor_less_iff)
  then show ?thesis
    by (simp add: py_round_def Let_def)
qed


lemma binary64_nonneg:
  assumes "0 \<le> x"
  shows "0 \<le> binary64 x"
proof (cases "x = 0")
  case True
  then show ?thesis by (simp add: binary64_def)
next
  case False
  define ulp :: real where "ulp = 2 powr (of_int \<lfloor>log 2 \<bar>x\<bar>\<rfloor> - 52)"
  have ulp_pos: "0 < ulp" by (simp add: ulp_def)
  have "0 \<le> x / ulp" using assms ulp_pos by simp
  then have "0 \<le> py_round (x / ulp)" by (rule py_round_nonneg)
  then have "0 \<le> ulp * of_int (py_round (x / ulp))"
    using ulp_pos by simp
  with False show ?thesis
    by (simp add: binary64_def Let_def ulp_def)
qed


lemma binary64_le_nat:
  assumes "0 \<le> x" and "x \<le> of_nat n" and "n < 2 ^ 53"
  shows "binary64 x \<le> of_nat n"
proof (cases "x = 0")
  case True
  then show ?thesis by (simp add: binary64_def)
next
  case False
  with assms(1) have pos: "0 < x" by simp
  define e where "e = \<lfloor>log 2 \<bar>x\<bar>\<rfloor>"
  define ulp :: real where "ulp = 2 powr (of_int e - 52)"
  have ulp_pos: "0 < ulp" by (simp add: ulp_def)
  from assms(3) have "real n < real (2 ^ 53)" by (simp only: of_nat_less_iff)
  with assms(2) have "x < 2 powr 53" by (simp add: powr_numeral)
  then have "log 2 x < 53"
    using pos by (simp add: log_less_iff)
  then have e52: "e \<le> 52"
    using pos by (simp add: e_def floor_le_iff)
  define m where "m = nat (52 - e)"
  have "of_int e - 52 = - real m"
    using e52 by (simp add: m_def)
  then have "ulp = 2 powr (- real m)" by (simp add: ulp_def)
  then have ulp_eq: "ulp = 1 / 2 ^ m"
    by (simp add: powr_minus powr_realpow inverse_eq_divide)
  have "x / ulp \<le> of_nat n / ulp"
    using assms(2) ulp_pos by (simp add: divide_right_mono)
  also have "of_nat n / ulp = of_int (int n * 2 ^ m)"
    by (simp add: ulp_eq)
  finally have "py_round (x / ulp) \<le> int n * 2 ^ m"
    by (rule py_round_le)
  then have "of_int (py_round (x / ulp)) \<le> (of_int (int n * 2 ^ m) :: real)"
    by (simp only: of_int_le_iff)
  then have "ulp * of_int (py_round (x / ulp)) \<le> ulp * of_int (int n * 2 ^ m)"
    using ulp_pos by (simp only: mult_le_cancel_left_pos)
  also have "ulp * of_int (int n * 2 ^ m) = of_nat n"
    by (simp add: ulp_eq)
  finally show ?thesis
    using False by (simp add: binary64_def Let_def e_def ulp_def)
qed

lemma distancing_target_range:
  assumes "0 \<le> nv_value (distancing_percent w)" and "nv_value (distancing_percent w) \<le> 100"
    and "length (persons w) < 2 ^ 53"
  shows "0 \<le> distancing_target w \<and> distancing_target w \<le> int (length (persons w))"
proof -
  let ?y = "binary64 (nv_value (distancing_percent w) / 100)"
  let ?n = "length (persons w)"
  have y0: "0 \<le> ?y"
    using assms(1) by (intro binary64_nonneg) simp
  have "?y \<le> of_nat 1"
    using assms(1,2) by (intro binary64_le_nat) simp_all
  then have y1: "?y \<le> 1" by simp
  have z0: "0 \<le> ?y * of_nat ?n"
    using y0 by simp
  have "?y * of_nat ?n \<le> 1 * of_nat ?n"
    using y1 by (intro mult_right_mono) simp_all
  then have z1: "?y * of_nat ?n \<le> of_nat ?n" by simp
  have b0: "0 \<le> binary64 (?y * of_nat ?n)"
    using z0 by (rule binary64_nonneg)
  have b1: "binary64 (?y * of_nat ?n) \<le> of_nat ?n"
    using z0 z1 assms(3) by (rule binary64_le_nat)
  from b0 have t: "distancing_target w = \<lfloor>binary64 (?y * of_nat ?n)\<rfloor>"
    by (simp add: distancing_target_def py_int_def)
  from b0 have "0 \<le> \<lfloor>binary64 (?y * of_nat ?n)\<rfloor>" by simp
  moreover from b1 have "\<lfloor>binary64 (?y * of_nat ?n)\<rfloor> \<le> int ?n"
    by (simp add: floor_le_iff)
  ultimately show ?thesis unfolding t by simp
qed


lemma W5_adjust: "ADJUST_DISTANCING_PERCENT W5 = Inr W5_after"
proof -
  have s: "random_sample [0, Suc 0, 2] 1 W5 = Inr ([0::nat], W5\<lparr>random_calls := Suc 0\<rparr>)"
    by (simp add: random_sample_def random_index_def random_random_def W5_def example_world_def)
  let ?w2 = "set_distancing_each [0] True (W5\<lparr>random_calls := Suc 0\<rparr>)"
  have "ADJUST_DISTANCING_PERCENT W5
      = Inr (?w2\<lparr>distancing_percent := resolve_diff (distancing_percent ?w2)\<rparr>)"
    unfolding ADJUST_DISTANCING_PERCENT_def Let_def W5_lists W5_target
    by (simp add: s bind_result_def)
  also have "?w2\<lparr>distancing_percent := resolve_diff (distancing_percent ?w2)\<rparr> = W5_after"
    by (simp add: W5_after_def resolve_diff_def upd_person_def W5_def example_world_def)
  finally show ?thesis .
qed

text \<open>
  C5, as stated, fails: with three persons, none distancing, and the percent at 50, the
  rebalancing leaves one person distancing, while \<open>round(50/100 * 3)\<close> is 2 (both float
  operations are exact here: 0.5 and 1.5 are floats).
\<close>

theorem C5_rebalance_truncates:
  "ADJUST_DISTANCING_PERCENT W5 = Inr W5_after
   \<and> length (distancers W5_after) = 1
   \<and> py_round (binary64 (binary64 (nv_value (distancing_percent W5) / 100)
                          * of_nat (length (persons W5)))) = 2
   \<and> py_round (nv_value (distancing_percent W5) / 100 * of_nat (length (persons W5))) = 2"
proof -
  have "length (distancers W5_after) = 1"
    by (simp add: distancers_def W5_after_def example_world_def example_person_def
        upt_rec [of 0] upt_rec [of "Suc 0"] upt_rec [of 2] upt_rec [of 3])
  moreover have "py_round (nv_value (distancing_percent W5) / 100 * of_nat (length (persons W5))) = 2"
    by (simp add: py_round_def W5_def example_world_def Let_def)
  moreover have "py_round (binary64 (binary64 (nv_value (distancing_percent W5) / 100)
                          * of_nat (length (persons W5)))) = 2"
  proof -
    have "binary64 (binary64 (nv_value (distancing_percent W5) / 100) * of_nat (length (persons W5)))
        = binary64 (binary64 (50 / 100) * 3)"
      by (simp add: W5_def example_world_def)
    also have "\<dots> = 3 / 2"
      unfolding binary64_half binary64_three_halves ..
    finally have v: "binary64 (binary64 (nv_value (distancing_percent W5) / 100)
        * of_nat (length (persons W5))) = 3 / 2" .
    show ?thesis
      unfolding v by (simp add: py_round_def Let_def)
  qed
  ultimately show ?thesis using W5_adjust by simp
qed

text \<open>
  C5, as the code has it. With the percent between 0 and 100 the rebalancing returns
  normally (the pool it samples from is always large enough, so nothing is clamped),
  keeps the population, and afterwards the number of distancing persons is
  \<open>int(percent/100 * population)\<close>: the float product as the program computes it,
  truncated, not rounded.
\<close>

theorem C5_rebalance_reaches_truncated_target:
  assumes "valid_rng (random_stream w)"
    and "0 \<le> nv_value (distancing_percent w)" and "nv_value (distancing_percent w) \<le> 100"
    and "length (persons w) < 2 ^ 53"
  shows "\<exists>w'. ADJUST_DISTANCING_PERCENT w = Inr w'
            \<and> int (length (distancers w'))
                = py_int (binary64 (binary64 (nv_value (distancing_percent w) / 100)
                                   * of_nat (length (persons w))))
            \<and> length (persons w') = length (persons w)"
proof -
  define diff where "diff = distancing_target w - int (length (distancers w))"
  have tgt: "py_int (binary64 (binary64 (nv_value (distancing_percent w) / 100)
                                   * of_nat (length (persons w))))
      = distancing_target w"
    by (simp add: distancing_target_def)
  show ?thesis
  proof (cases "diff = 0")
    case True
    let ?w' = "w\<lparr>distancing_percent := resolve_diff (distancing_percent w)\<rparr>"
    have "ADJUST_DISTANCING_PERCENT w = Inr ?w'"
      using True by (simp add: ADJUST_DISTANCING_PERCENT_def Let_def diff_def bind_result_def)
    moreover have "distancers ?w' = distancers w"
      by (simp add: distancers_def)
    ultimately show ?thesis
      using True unfolding tgt by (simp add: diff_def)
  next
    case False
    define flag where "flag \<longleftrightarrow> 0 < diff"
    define pool where "pool = (if flag then non_distancers w else distancers w)"
    define n where "n = nat \<bar>diff\<bar>"
    define js where "js = fst (sample_loop n pool w)"
    define w1 where "w1 = snd (sample_loop n pool w)"
    define w2 where "w2 = set_distancing_each js flag w1"
    let ?w' = "w2\<lparr>distancing_percent := resolve_diff (distancing_percent w2)\<rparr>"
    from distancing_target_range [OF assms(2,3,4)] distancers_count [of w]
    have fits: "n \<le> length pool"
      unfolding n_def pool_def flag_def diff_def by auto
    then have ok: "\<not> (\<bar>diff\<bar> < 0 \<or> int (length pool) < \<bar>diff\<bar>)"
      unfolding n_def by linarith
    have "random_sample pool \<bar>diff\<bar> w = Inr (js, w1)"
      using ok by (simp add: random_sample_def js_def w1_def n_def)
    then have run: "ADJUST_DISTANCING_PERCENT w = Inr ?w'"
      using False
      unfolding ADJUST_DISTANCING_PERCENT_def Let_def diff_def [symmetric]
      by (simp add: bind_result_def pool_def flag_def w2_def split: if_splits)
    have dp: "distinct pool"
      by (simp add: pool_def distancers_def non_distancers_def)
    from sample_loop_props [OF assms(1) fits dp]
    have js: "distinct js" "set js \<subseteq> set pool" "length js = n"
      by (simp_all add: js_def)
    have p1: "persons w1 = persons w"
      by (simp add: w1_def sample_loop_world)
    from distancers_after_set [OF p1 js(1), of flag] js(2)
    have "int (length (distancers w2))
       = int (length (distancers w)) + (if flag then int (length js) else - int (length js))"
      by (simp add: w2_def pool_def)
    with js(3) False have "int (length (distancers w2)) = distancing_target w"
      unfolding n_def flag_def diff_def by (auto split: if_splits)
    moreover have "distancers ?w' = distancers w2"
      by (simp add: distancers_def)
    moreover have "length (persons ?w') = length (persons w)"
      using set_distancing_each_persons [of js flag w1] p1 by (simp add: w2_def)
    ultimately show ?thesis
      using run unfolding tgt by simp
  qed
qed

lemma W29_target:
  "py_int (binary64 (binary64 (nv_value (distancing_percent W29) / 100)
                     * of_nat (length (persons W29)))) = 57"
proof -
  have "binary64 (binary64 (nv_value (distancing_percent W29) / 100) * of_nat (length (persons W29)))
      = binary64 (binary64 (29 / 100) * 200)"
    by (simp add: W29_def example_world_def)
  also have "\<dots> = 8162774324609023 / 2 ^ 47"
    unfolding binary64_29 binary64_29_200 ..
  finally have v: "binary64 (binary64 (nv_value (distancing_percent W29) / 100)
      * of_nat (length (persons W29))) = 8162774324609023 / 2 ^ 47" .
  show ?thesis
    unfolding v by (simp add: py_int_def)
qed

theorem C5_rebalance_reaches_truncated_target_witness:
  "valid_rng (random_stream W29) \<and> 0 \<le> nv_value (distancing_percent W29)
   \<and> nv_value (distancing_percent W29) \<le> 100 \<and> length (persons W29) < 2 ^ 53
   \<and> py_int (binary64 (binary64 (nv_value (distancing_percent W29) / 100)
                        * of_nat (length (persons W29)))) = 57
   \<and> (\<exists>w'. ADJUST_DISTANCING_PERCENT W29 = Inr w'
           \<and> int (length (distancers w')) = 57
           \<and> length (persons w') = length (persons W29))"
proof -
  have h: "valid_rng (random_stream W29)" "0 \<le> nv_value (distancing_percent W29)"
    "nv_value (distancing_percent W29) \<le> 100" "length (persons W29) < 2 ^ 53"
    by (simp_all add: W29_def valid_rng_def example_world_def)
  from C5_rebalance_reaches_truncated_target [OF h] h W29_target show ?thesis by simp
qed

subsection \<open>A person that dies and recovers in one update\<close>

lemma dying_wander: "wander (dying_world p 0 c) 0 = dying_world p (Suc 0) c"
  by (simp add: wander_def random_random_def dying_world_def)

lemma dying_wander6: "wander (dying_world p 6 c) 0 = dying_world p 7 c"
  by (simp add: wander_def random_random_def dying_world_def)

lemma dying_avoid_walls:
  assumes "rect_center p = (x, 200)" and "12 \<le> x" and "x \<le> 390" and "bounds_community p = 0"
  shows "avoid_walls (dying_world p r c) 0 = dying_world p r c"
proof -
  have b: "active_bounds (dying_world p r c) (persons (dying_world p r c) ! 0) = CommunityRef 0"
    using assms(4) by (simp add: active_bounds_def dying_world_def example_active)
  have e: "bounds_left (dying_world p r c) (CommunityRef 0) = 2"
    "bounds_right (dying_world p r c) (CommunityRef 0) = 400"
    "bounds_top (dying_world p r c) (CommunityRef 0) = 2"
    "bounds_bottom (dying_world p r c) (CommunityRef 0) = 400"
    by (simp_all add: bounds_left_def bounds_right_def bounds_top_def bounds_bottom_def
        dying_world_def example_edges)
  have c: "rect_center (persons (dying_world p r c) ! 0) = (x, 200)"
    using assms(1) by (simp add: dying_world_def)
  show ?thesis
    unfolding avoid_walls_def Let_def b e c using assms(2,3) by simp
qed

lemma dying_nearby:
  assumes "state p \<noteq> DECEASED" and "travel_target p = None"
  shows "get_nearby (dying_world p r c) 0 = [0]"
  using assms
  by (simp add: get_nearby_def Let_def dying_world_def colliderect_self separation_def vec_sub_def
      vec_length_def distancing_radius_def radius_def)

lemma dying_first_end:
  "end_infection (snd (perf_counter (dying_world
      ((example_person (200, 200) INFECTED)\<lparr>infected_start := Some 1\<rparr>) (Suc 0) 0))) 0 = W2_dead"
  by (simp add: end_infection_def perf_counter_def random_random_def die_def upd_person_def
      dying_world_def W2_dead_def MORTALITY_CHANCE_def Let_def example_person_def)


lemma dying_handle:
  "handle_infection (dying_world
      ((example_person (200, 200) INFECTED)\<lparr>infected_start := Some 1\<rparr>) (Suc 0) 0) 0 [0]
   = Inr (dying_world ((example_person (200, 200) RECOVERED)
                \<lparr>distancing := True, infected_start := Some 1, infected_end := Some 103,
                  last_event := 104\<rparr>) 6 5)"
  by (simp add: handle_infection_def truthy_def end_infection_def perf_counter_def
      random_random_def die_def recover_def upd_person_def dying_world_def Let_def
      MAX_INFECTION_DURATION_def INFECTION_EVENT_INTERVAL_def MORTALITY_CHANCE_def
      SPREAD_CHANCE_def EARLY_TERMINATION_CHANCE_def RECOVERED_NONDISTANCER_CHANCE_def
      example_person_def)

lemma dying_move:
  assumes "p = (example_person (x, 200) s)\<lparr>distancing := d, infected_start := a, infected_end := b,
                  last_event := l\<rparr>"
    and "7 \<le> x + 1" and "x + 1 \<le> 395"
  shows "stay_in_bounds (move_person (dying_world p r c) 0 (1 / 100)) 0
       = dying_world ((example_person (x + 1, 200) s)\<lparr>distancing := d, infected_start := a,
                  infected_end := b, last_event := l\<rparr>) r c"
proof -
  let ?p' = "(example_person (x + 1, 200) s)\<lparr>distancing := d, infected_start := a,
                  infected_end := b, last_event := l\<rparr>"
  have m: "move_person (dying_world p r c) 0 (1 / 100) = dying_world ?p' r c"
    by (simp add: move_person_def upd_person_def dying_world_def assms(1) example_person_def
        set_rect_def move_ip_def Person_rect_def py_int_def speed_def)
  have c: "rect_center (persons (dying_world ?p' r c) ! 0) = (x + 1, 200)"
    by (simp add: dying_world_def rect_center_def Rect_center_def Person_rect_def
        example_person_def surf_size_def radius_def)
  have b: "active_bounds (dying_world ?p' r c) (persons (dying_world ?p' r c) ! 0) = CommunityRef 0"
    by (simp add: active_bounds_def dying_world_def example_active example_person_def)
  have e: "bounds_left (dying_world ?p' r c) (CommunityRef 0) = 2"
    "bounds_right (dying_world ?p' r c) (CommunityRef 0) = 400"
    "bounds_top (dying_world ?p' r c) (CommunityRef 0) = 2"
    "bounds_bottom (dying_world ?p' r c) (CommunityRef 0) = 400"
    by (simp_all add: bounds_left_def bounds_right_def bounds_top_def bounds_bottom_def
        dying_world_def example_edges)
  have "stay_in_bounds (dying_world ?p' r c) 0 = dying_world ?p' r c"
    unfolding stay_in_bounds_def Let_def c b e using assms(2,3)
    by (simp add: clamp_def radius_def upd_person_def dying_world_def example_person_def
        set_rect_def Rect_set_center_def Person_rect_def surf_size_def)
  then show ?thesis unfolding m .
qed


lemma example_travel_fields:
  "rect_center ((example_person c s)\<lparr>infected_start := a\<rparr>) = c"
  "rect_center ((example_person c s)\<lparr>distancing := d, infected_start := a, infected_end := b,
                  last_event := l\<rparr>) = c"
  by (simp_all add: rect_center_def Rect_center_def Person_rect_def example_person_def
      surf_size_def radius_def)

lemma W2_dying_update: "Person_update W2_dying 0 (1 / 100) False = Inr W2_revived"
proof -
  let ?p = "(example_person (200, 200) INFECTED)\<lparr>infected_start := Some 1\<rparr>"
  let ?q = "(example_person (200, 200) RECOVERED)\<lparr>distancing := True, infected_start := Some 1,
                  infected_end := Some 103, last_event := 104\<rparr>"
  have w3: "avoid_walls (wander W2_dying 0) 0 = dying_world ?p (Suc 0) 0"
    unfolding W2_dying_def dying_wander
    by (rule dying_avoid_walls [where x = 200])
       (simp_all add: example_travel_fields, simp add: example_person_def)
  have n: "get_nearby (dying_world ?p (Suc 0) 0) 0 = [0]"
    by (rule dying_nearby) (simp_all add: example_person_def)
  have s: "state (persons (dying_world ?p (Suc 0) 0) ! 0) = INFECTED"
    "truthy (infected_start (persons (dying_world ?p (Suc 0) 0) ! 0))"
    by (simp_all add: dying_world_def example_person_def truthy_def)
  have m: "stay_in_bounds (move_person (dying_world ?q 6 5) 0 (1 / 100)) 0 = W2_revived"
    unfolding W2_revived_def
    using dying_move [where p = ?q and x = 200 and s = RECOVERED and d = True and a = "Some 1"
        and b = "Some 103" and l = 104 and r = 6 and c = 5] by simp
  have "operate W2_dying 0 (1 / 100) False = Inr W2_revived"
    unfolding operate_def Let_def w3 n
    by (simp add: s dying_handle bind_result_def m)
  moreover have "state (persons W2_dying ! 0) \<noteq> DECEASED" "travel_target (persons W2_dying ! 0) = None"
    by (simp_all add: W2_dying_def dying_world_def example_person_def)
  ultimately show ?thesis by (simp add: Person_update_def)
qed

lemma W2_revived_update: "Person_update W2_revived 0 (1 / 100) False = Inr W2_next"
proof -
  let ?q = "(example_person (201, 200) RECOVERED)\<lparr>distancing := True, infected_start := Some 1,
                  infected_end := Some 103, last_event := 104\<rparr>"
  have w3: "avoid_walls (wander W2_revived 0) 0 = dying_world ?q 7 5"
    unfolding W2_revived_def dying_wander6
    by (rule dying_avoid_walls [where x = 201])
       (simp_all add: example_travel_fields, simp add: example_person_def)
  have s: "state (persons (dying_world ?q 7 5) ! 0) = RECOVERED"
    by (simp add: dying_world_def example_person_def)
  have m: "stay_in_bounds (move_person (dying_world ?q 7 5) 0 (1 / 100)) 0 = W2_next"
    unfolding W2_next_def
    using dying_move [where p = ?q and x = 201 and s = RECOVERED and d = True and a = "Some 1"
        and b = "Some 103" and l = 104 and r = 7 and c = 5] by simp
  have "operate W2_revived 0 (1 / 100) False = Inr W2_next"
    unfolding operate_def Let_def w3
    by (simp add: s bind_result_def m)
  moreover have "state (persons W2_revived ! 0) \<noteq> DECEASED" "travel_target (persons W2_revived ! 0) = None"
    by (simp_all add: W2_revived_def dying_world_def example_person_def)
  ultimately show ?thesis by (simp add: Person_update_def)
qed

text \<open>
  C2 (DECEASED is absorbing). An INFECTED person whose infection has lasted 99 s is
  updated with the mortality roll at 0: the first \<open>end_infection\<close> of \<open>handle_infection\<close>
  makes it DECEASED. The same call of \<open>handle_infection\<close> then rolls the early
  termination (0, below the chance) and calls \<open>end_infection\<close> again, whose mortality
  roll (1/2) makes the person RECOVERED. The update ends with the person RECOVERED and
  moved from (200, 200) to (201, 200), and its next update moves it to (202, 200).
\<close>

theorem C2_deceased_person_recovers_and_moves:
  "state (persons W2_dying ! 0) = INFECTED
   \<and> end_infection (snd (perf_counter (snd (random_random W2_dying)))) 0 = W2_dead
   \<and> state (persons W2_dead ! 0) = DECEASED
   \<and> Person_update W2_dying 0 (1 / 100) False = Inr W2_revived
   \<and> state (persons W2_revived ! 0) = RECOVERED
   \<and> rect_center (persons W2_dying ! 0) = (200, 200)
   \<and> rect_center (persons W2_revived ! 0) = (201, 200)
   \<and> Person_update W2_revived 0 (1 / 100) False = Inr W2_next
   \<and> state (persons W2_next ! 0) = RECOVERED
   \<and> rect_center (persons W2_next ! 0) = (202, 200)"
proof -
  have a: "state (persons W2_dying ! 0) = INFECTED" "state (persons W2_dead ! 0) = DECEASED"
    "state (persons W2_revived ! 0) = RECOVERED" "state (persons W2_next ! 0) = RECOVERED"
    by (simp_all add: W2_dying_def W2_dead_def W2_revived_def W2_next_def dying_world_def
        example_person_def)
  have c: "rect_center (persons W2_dying ! 0) = (200, 200)"
    "rect_center (persons W2_revived ! 0) = (201, 200)"
    "rect_center (persons W2_next ! 0) = (202, 200)"
    by (simp_all add: W2_dying_def W2_revived_def W2_next_def dying_world_def example_travel_fields)
  have "snd (random_random W2_dying)
      = dying_world ((example_person (200, 200) INFECTED)\<lparr>infected_start := Some 1\<rparr>) (Suc 0) 0"
    by (simp add: random_random_def W2_dying_def dying_world_def)
  then have d: "end_infection (snd (perf_counter (snd (random_random W2_dying)))) 0 = W2_dead"
    by (simp only: dying_first_end)
  from a c d W2_dying_update W2_revived_update show ?thesis by simp
qed

end
